theory Spec2Isabelle
  imports Complex_Main
begin

section \<open>The incremental image cache of the portfolio build script\<close>

text \<open>
  The build script keeps a content-hash keyed cache of derived image data
  (\<open>imageCache\<close>, persisted as \<open>.image-cache.json\<close>), decides per source image whether
  to reuse the cached data or to run the image library again, and writes the resized
  encodings below \<open>dist/images\<close>. The image library (sharp), the file system and the
  page generators are outside the script: they appear here as the record \<open>env\<close>, whose
  fields say what each call returns or which message it throws. Paths are joined with
  \<open>/\<close> and are not normalised; numbers that the script prints are printed in decimal;
  floating point rounding is not modelled.
\<close>

subsection \<open>Strings and numbers as the script formats them\<close>

type_synonym path = string

definition digitChar :: "nat \<Rightarrow> char" where
  "digitChar n = ''0123456789abcdef'' ! n"

fun showNat :: "nat \<Rightarrow> string" where
  "showNat n = (if n < 10 then [digitChar n] else showNat (n div 10) @ [digitChar (n mod 10)])"

declare showNat.simps [simp del]

fun showHex :: "nat \<Rightarrow> string" where
  "showHex n = (if n < 16 then [digitChar n] else showHex (n div 16) @ [digitChar (n mod 16)])"

declare showHex.simps [simp del]

definition padStart :: "nat \<Rightarrow> char \<Rightarrow> string \<Rightarrow> string" where
  "padStart n c s = replicate (n - length s) c @ s"

primrec pathJoin :: "string list \<Rightarrow> path" where
  "pathJoin [] = ''.''"
| "pathJoin (p # ps) = (if ps = [] then p else p @ ''/'' @ pathJoin ps)"

primrec joinComma :: "string list \<Rightarrow> string" where
  "joinComma [] = []"
| "joinComma (x # xs) = (if xs = [] then x else x @ '', '' @ joinComma xs)"

text \<open>\<open>Math.max\<close> of no argument is \<open>-Infinity\<close>; of widths, the largest.\<close>

datatype maxnum = NegInfinity | Num nat

primrec mathMax :: "nat list \<Rightarrow> maxnum" where
  "mathMax [] = NegInfinity"
| "mathMax (x # xs) = (case mathMax xs of NegInfinity \<Rightarrow> Num x | Num m \<Rightarrow> Num (max x m))"

primrec showMax :: "maxnum \<Rightarrow> string" where
  "showMax NegInfinity = ''-Infinity''"
| "showMax (Num n) = showNat n"

text \<open>The quotient \<open>metadata.width / metadata.height\<close>.\<close>

datatype ratio = Ratio rat | RatioInfinity | RatioNaN

definition jsDivide :: "nat \<Rightarrow> nat \<Rightarrow> ratio" where
  "jsDivide w h = (if h = 0 then (if w = 0 then RatioNaN else RatioInfinity)
                   else Ratio (of_nat w / of_nat h))"

subsection \<open>Configuration\<close>

definition distDir :: path where "distDir = ''dist''"
definition projectsDir :: path where "projectsDir = ''projects''"
definition homepageDir :: path where "homepageDir = ''homepage''"
definition imageCachePath :: path where "imageCachePath = ''.image-cache.json''"
definition imageSizes :: "nat list" where "imageSizes = [400, 800, 1200]"
definition imageQuality :: nat where "imageQuality = 85"
definition avifQuality :: nat where "avifQuality = 65"

subsection \<open>Data\<close>

datatype format = AVIF | WebP | JPEG

text \<open>What \<open>processImage\<close> returns for a project image.\<close>

record results =
  sizes :: "nat \<rightharpoonup> bool"
  placeholder :: string
  aspectRatio :: ratio
  width :: nat
  height :: nat
  dominantColor :: string

record srcset =
  avif :: string
  webp :: string
  jpg :: string

text \<open>The object built for a homepage slideshow image.\<close>

record homepage_image =
  hp_index :: nat
  hp_path :: string
  hp_srcset :: srcset
  hp_src :: string
  hp_placeholder :: string
  hp_aspectRatio :: ratio
  hp_width :: nat
  hp_height :: nat
  hp_dominantColor :: string

text \<open>The object built for a landing page image.\<close>

record landing_image =
  ld_src :: string
  ld_srcset :: srcset
  ld_width :: nat
  ld_height :: nat
  ld_aspectRatio :: ratio

text \<open>The \<open>data\<close> of a cache entry is whichever of the two objects was stored.\<close>

datatype cdata = Results results | Homepage homepage_image

record cache_entry =
  hash :: string
  data :: cdata

datatype cache_file = Absent | Unparsable string | Stored "string \<rightharpoonup> cache_entry"

text \<open>
  The mutable world of one build: the two module variables \<open>imageCache\<close> and
  \<open>imageCacheUpdated\<close>, the paths that exist (\<open>fsys\<close>), the files written so far in
  the order of the writes (\<open>writes\<close>), the cache file on disk, and the lines printed by
  \<open>console.error\<close> and \<open>console.warn\<close>.
\<close>

record state =
  imageCache :: "string \<rightharpoonup> cache_entry"
  imageCacheUpdated :: bool
  fsys :: "path set"
  writes :: "path list"
  cacheFile :: cache_file
  console :: "string list"

text \<open>The source inventory, as \<open>loadProjects\<close> hands it over.\<close>

record image_item =
  img_file :: string
  img_index :: nat
  img_size :: string

record project =
  slug :: string
  title :: string
  hasImages :: bool
  images :: "image_item list"

text \<open>
  What the calls into the libraries return. A message (\<open>Inl\<close> or \<open>Some\<close>) is the
  \<open>err.message\<close> of the exception the call throws.
\<close>

record env =
  getFileHash :: "path \<Rightarrow> string + string"
  sharpMetadata :: "path \<Rightarrow> string + (nat \<times> nat)"
  sharpToFile :: "path \<Rightarrow> nat \<Rightarrow> bool \<Rightarrow> format \<Rightarrow> nat \<Rightarrow> string option"
  sharpPlaceholder :: "path \<Rightarrow> string + string"
  sharpDominant :: "path \<Rightarrow> (nat \<times> nat \<times> nat) option"
  fsCopy :: "path \<Rightarrow> string option"
  fsEnsureDir :: "path \<Rightarrow> string option"
  fsRemove :: "path \<Rightarrow> string option"
  outputJson :: "path \<Rightarrow> string option"
  readdir :: "path \<Rightarrow> string + string list"
  projectConfigs :: "string + project list"
  otherStep :: "string \<Rightarrow> string option"

subsection \<open>File system and library calls\<close>

type_synonym 'a outcome = "(string + 'a) \<times> state"

definition andThen :: "'a outcome \<Rightarrow> ('a \<Rightarrow> state \<Rightarrow> 'b outcome) \<Rightarrow> 'b outcome" where
  "andThen m f = (case m of (Inl e, s) \<Rightarrow> (Inl e, s) | (Inr x, s) \<Rightarrow> f x s)"

definition pathExists :: "state \<Rightarrow> path \<Rightarrow> bool" where
  "pathExists s p = (p \<in> fsys s)"

primrec dirChain :: "string \<Rightarrow> string \<Rightarrow> path list" where
  "dirChain seen [] = []"
| "dirChain seen (c # cs) =
     (if c = CHR ''/'' \<and> seen \<noteq> [] then [seen] else []) @ dirChain (seen @ [c]) cs"

text \<open>
  \<open>fs.ensureDir\<close> throws, or else the directory and the directories above it exist
  afterwards (\<open>mkdirp\<close>).
\<close>

definition mkdirp :: "path \<Rightarrow> state \<Rightarrow> state" where
  "mkdirp p s = s\<lparr>fsys := insert p (set (dirChain [] p) \<union> fsys s)\<rparr>"

definition ensureDir :: "env \<Rightarrow> path \<Rightarrow> state \<Rightarrow> unit outcome" where
  "ensureDir env p s =
     (case fsEnsureDir env p of
        Some msg \<Rightarrow> (Inl msg, s)
      | None \<Rightarrow> (Inr (), mkdirp p s))"

definition wrote :: "path \<Rightarrow> state \<Rightarrow> state" where
  "wrote p s = s\<lparr>fsys := insert p (fsys s), writes := writes s @ [p]\<rparr>"

definition toFile :: "env \<Rightarrow> path \<Rightarrow> nat \<Rightarrow> bool \<Rightarrow> format \<Rightarrow> nat \<Rightarrow> path \<Rightarrow> state \<Rightarrow> unit outcome" where
  "toFile env inputPath w noEnlarge fmt quality out s =
     (case sharpToFile env inputPath w noEnlarge fmt quality of
        Some msg \<Rightarrow> (Inl msg, s)
      | None \<Rightarrow> (Inr (), wrote out s))"

definition copyFile :: "env \<Rightarrow> path \<Rightarrow> path \<Rightarrow> state \<Rightarrow> unit outcome" where
  "copyFile env inputPath out s =
     (case fsCopy env inputPath of
        Some msg \<Rightarrow> (Inl msg, s)
      | None \<Rightarrow> (Inr (), wrote out s))"

definition extractDominantColor :: "env \<Rightarrow> path \<Rightarrow> string" where
  "extractDominantColor env inputPath =
     (case sharpDominant env inputPath of
        None \<Rightarrow> ''#e8e8e6''
      | Some (r, g, b) \<Rightarrow>
          ''#'' @ padStart 2 (CHR ''0'') (showHex r) @ padStart 2 (CHR ''0'') (showHex g)
               @ padStart 2 (CHR ''0'') (showHex b))"

subsection \<open>The derivation engine: \<open>processImage\<close>\<close>

text \<open>
  The loop over \<open>CONFIG.imageSizes\<close>: for every width that the source reaches, the AVIF,
  the WebP and the JPEG file are written, in this order, and the width is entered into
  \<open>results.sizes\<close>. A throwing encoder ends the loop; what was written stays.
\<close>

fun generateSizes :: "env \<Rightarrow> path \<Rightarrow> path \<Rightarrow> nat \<Rightarrow> nat list \<Rightarrow> (nat \<rightharpoonup> bool) \<Rightarrow> state
    \<Rightarrow> (nat \<rightharpoonup> bool) outcome" where
  "generateSizes env inputPath outputDir mw [] acc s = (Inr acc, s)"
| "generateSizes env inputPath outputDir mw (w # ws) acc s =
     (if mw \<ge> w then
        andThen (toFile env inputPath w False AVIF avifQuality
                   (pathJoin [outputDir, showNat w] @ ''.avif'') s) (\<lambda>_ s1.
        andThen (toFile env inputPath w False WebP imageQuality
                   (pathJoin [outputDir, showNat w] @ ''.webp'') s1) (\<lambda>_ s2.
        andThen (toFile env inputPath w False JPEG imageQuality
                   (pathJoin [outputDir, showNat w] @ ''.jpg'') s2) (\<lambda>_ s3.
        generateSizes env inputPath outputDir mw ws (acc(w \<mapsto> True)) s3)))
      else generateSizes env inputPath outputDir mw ws acc s)"

definition processImage :: "env \<Rightarrow> path \<Rightarrow> path \<Rightarrow> state \<Rightarrow> results outcome" where
  "processImage env inputPath outputDir s =
     (case sharpMetadata env inputPath of
        Inl msg \<Rightarrow> (Inl msg, s)
      | Inr (mw, mh) \<Rightarrow>
          andThen (ensureDir env outputDir s) (\<lambda>_ s0.
          andThen (generateSizes env inputPath outputDir mw imageSizes Map.empty s0) (\<lambda>szs s1.
            (case sharpPlaceholder env inputPath of
               Inl msg \<Rightarrow> (Inl msg, s1)
             | Inr b64 \<Rightarrow>
                 andThen (copyFile env inputPath (pathJoin [outputDir, ''original.jpg'']) s1)
                   (\<lambda>_ s2.
                     (Inr \<lparr>sizes = szs,
                           placeholder = ''data:image/jpeg;base64,'' @ b64,
                           aspectRatio = jsDivide mw mh,
                           width = mw,
                           height = mh,
                           dominantColor = extractDominantColor env inputPath\<rparr>, s2))))))"

text \<open>The three files of one width, as \<open>processImage\<close> names them.\<close>

definition sizeFiles :: "path \<Rightarrow> nat \<Rightarrow> path list" where
  "sizeFiles outputDir w =
     [pathJoin [outputDir, showNat w] @ ''.avif'',
      pathJoin [outputDir, showNat w] @ ''.webp'',
      pathJoin [outputDir, showNat w] @ ''.jpg'']"

subsection \<open>The change detector\<close>

text \<open>The function \<open>needsProcessing\<close>; it receives \<open>outputDir\<close>.\<close>

definition needsProcessing :: "state \<Rightarrow> string \<Rightarrow> string \<Rightarrow> path \<Rightarrow> bool" where
  "needsProcessing s cacheKey fileHash outputDir =
     (case imageCache s cacheKey of
        None \<Rightarrow> True
      | Some cached \<Rightarrow> (if hash cached \<noteq> fileHash then True else False))"

text \<open>
  The condition that both orchestrators write out themselves,
  \<open>cached && cached.hash === fileHash && await fs.pathExists(outputDir)\<close>:
  it yields the entry to reuse when it holds.
\<close>

definition cachedFor :: "state \<Rightarrow> string \<Rightarrow> string \<Rightarrow> path \<Rightarrow> cache_entry option" where
  "cachedFor s cacheKey fileHash outputDir =
     (case imageCache s cacheKey of
        None \<Rightarrow> None
      | Some cached \<Rightarrow>
          (if hash cached = fileHash \<and> pathExists s outputDir then Some cached else None))"

subsection \<open>The store: load and persist\<close>

definition loadImageCache :: "state \<Rightarrow> state" where
  "loadImageCache s =
     (case cacheFile s of
        Stored m \<Rightarrow> s\<lparr>imageCache := m\<rparr>
      | Absent \<Rightarrow> s\<lparr>imageCache := Map.empty\<rparr>
      | Unparsable msg \<Rightarrow>
          s\<lparr>imageCache := Map.empty,
            console := console s @ [''  Warning: Could not load image cache: '' @ msg]\<rparr>)"

definition saveImageCache :: "env \<Rightarrow> state \<Rightarrow> state" where
  "saveImageCache env s =
     (if \<not> imageCacheUpdated s then s
      else (case outputJson env imageCachePath of
              None \<Rightarrow> (wrote imageCachePath s)\<lparr>cacheFile := Stored (imageCache s)\<rparr>
            | Some msg \<Rightarrow>
                s\<lparr>console := console s @ [''  Error saving image cache: '' @ msg]\<rparr>))"

subsection \<open>The orchestrator for project images: \<open>processImages\<close>\<close>

record image_entry =
  entry_data :: cdata
  entry_size :: string

text \<open>
  The local variables of \<open>processImages\<close>. The function returns \<open>imageData\<close> and prints
  the counters.
\<close>

record run =
  imageData :: "string \<rightharpoonup> (nat \<rightharpoonup> image_entry)"
  allFilenames :: "string \<rightharpoonup> string"
  warnings :: "string list"
  totalProcessed :: nat
  totalSkipped :: nat
  projectProcessed :: nat
  projectSkipped :: nat

definition lowerChar :: "char \<Rightarrow> char" where
  "lowerChar c = (let n = (of_char c :: nat) in if 65 \<le> n \<and> n \<le> 90 then char_of (n + 32) else c)"

definition toLowerCase :: "string \<Rightarrow> string" where
  "toLowerCase s = map lowerChar s"

definition validateImage :: "env \<Rightarrow> path \<Rightarrow> string \<Rightarrow> string list" where
  "validateImage env filePath filename =
     (case sharpMetadata env filePath of
        Inr (mw, mh) \<Rightarrow>
          (if mw < 1200
           then [''Warning: '' @ filename @ '' is only '' @ showNat mw
                   @ ''px wide (recommended: 1200px+)'']
           else [])
      | Inl msg \<Rightarrow> [''Error reading '' @ filename @ '': '' @ msg])"

definition checkDuplicate :: "project \<Rightarrow> image_item \<Rightarrow> run \<Rightarrow> run" where
  "checkDuplicate project img a =
     (case allFilenames a (toLowerCase (img_file img)) of
        Some other \<Rightarrow>
          a\<lparr>warnings := warnings a @
               [''Duplicate filename: \"'' @ img_file img @ ''\" in '' @ slug project
                  @ '' (also in '' @ other @ '')'']\<rparr>
      | None \<Rightarrow>
          a\<lparr>allFilenames := (allFilenames a)(toLowerCase (img_file img) \<mapsto> slug project)\<rparr>)"

definition inputPathOf :: "project \<Rightarrow> image_item \<Rightarrow> path" where
  "inputPathOf project img = pathJoin [projectsDir, slug project, ''original'', img_file img]"

definition outputDirOf :: "project \<Rightarrow> image_item \<Rightarrow> path" where
  "outputDirOf project img =
     pathJoin [distDir, ''images'', slug project, padStart 2 (CHR ''0'') (showNat (img_index img))]"

definition cacheKeyOf :: "project \<Rightarrow> image_item \<Rightarrow> string" where
  "cacheKeyOf project img = slug project @ ''/'' @ img_file img"

definition projectError :: "image_item \<Rightarrow> string \<Rightarrow> state \<Rightarrow> state" where
  "projectError img msg s =
     s\<lparr>console := console s @ [[CHR 0x0A] @ ''    Error processing '' @ img_file img @ '': '' @ msg]\<rparr>"

text \<open>
  The assignment \<open>imageData[project.slug][img.index] = v\<close>; it throws a TypeError when
  \<open>imageData[project.slug]\<close> is undefined.
\<close>

definition setImage :: "string \<Rightarrow> nat \<Rightarrow> image_entry \<Rightarrow> run \<Rightarrow> string + run" where
  "setImage sl i v a =
     (case imageData a sl of
        None \<Rightarrow> Inl ''Cannot set properties of undefined''
      | Some m \<Rightarrow> Inr (a\<lparr>imageData := (imageData a)(sl \<mapsto> m(i \<mapsto> v))\<rparr>))"

text \<open>One turn of the loop over \<open>project.images\<close>: the \<open>try\<close> block and its \<open>catch\<close>.\<close>

definition processProjectImage :: "env \<Rightarrow> project \<Rightarrow> image_item \<Rightarrow> state \<times> run \<Rightarrow> state \<times> run" where
  "processProjectImage env project img = (\<lambda>(s, a0).
     let inputPath = inputPathOf project img;
         outputDir = outputDirOf project img;
         cacheKey = cacheKeyOf project img;
         a = a0\<lparr>warnings := warnings a0 @ validateImage env inputPath cacheKey\<rparr>
     in case getFileHash env inputPath of
          Inl msg \<Rightarrow> (projectError img msg s, a)
        | Inr fileHash \<Rightarrow>
            (case cachedFor s cacheKey fileHash outputDir of
               Some cached \<Rightarrow>
                 (case setImage (slug project) (img_index img)
                         \<lparr>entry_data = data cached, entry_size = img_size img\<rparr> a of
                    Inl msg \<Rightarrow> (projectError img msg s, a)
                  | Inr a1 \<Rightarrow>
                      (s, a1\<lparr>projectSkipped := projectSkipped a1 + 1,
                              totalSkipped := totalSkipped a1 + 1\<rparr>))
             | None \<Rightarrow>
                 (case processImage env inputPath outputDir s of
                    (Inl msg, s1) \<Rightarrow> (projectError img msg s1, a)
                  | (Inr result, s1) \<Rightarrow>
                      (case setImage (slug project) (img_index img)
                              \<lparr>entry_data = Results result, entry_size = img_size img\<rparr> a of
                         Inl msg \<Rightarrow> (projectError img msg s1, a)
                       | Inr a1 \<Rightarrow>
                           (s1\<lparr>imageCache := (imageCache s1)
                                   (cacheKey \<mapsto> \<lparr>hash = fileHash, data = Results result\<rparr>),
                                imageCacheUpdated := True\<rparr>,
                            a1\<lparr>projectProcessed := projectProcessed a1 + 1,
                               totalProcessed := totalProcessed a1 + 1\<rparr>)))))"

definition processProject :: "env \<Rightarrow> project \<Rightarrow> state \<times> run \<Rightarrow> state \<times> run" where
  "processProject env project = (\<lambda>(s, a).
     if \<not> hasImages project then (s, a)
     else fold (processProjectImage env project) (images project)
            (s, fold (checkDuplicate project) (images project)
                  (a\<lparr>imageData := (imageData a)(slug project \<mapsto> Map.empty),
                     projectProcessed := 0, projectSkipped := 0\<rparr>)))"

definition newRun :: run where
  "newRun = \<lparr>imageData = Map.empty, allFilenames = Map.empty, warnings = [],
             totalProcessed = 0, totalSkipped = 0, projectProcessed = 0, projectSkipped = 0\<rparr>"

definition processImages :: "env \<Rightarrow> project list \<Rightarrow> state \<Rightarrow> run \<times> state" where
  "processImages env projects s =
     (case fold (processProject env) projects (s, newRun) of (s1, a) \<Rightarrow> (a, s1))"

subsection \<open>The orchestrator for the homepage slideshow: \<open>processHomepageImages\<close>\<close>

definition isDigit :: "char \<Rightarrow> bool" where
  "isDigit c = (c \<in> set ''0123456789'')"

text \<open>The test \<open>/^\d+\.(jpg|jpeg|png)$/i\<close>.\<close>

definition isNumberedImage :: "string \<Rightarrow> bool" where
  "isNumberedImage f =
     (takeWhile isDigit f \<noteq> [] \<and>
      (case dropWhile isDigit f of
         [] \<Rightarrow> False
       | c # e \<Rightarrow> c = CHR ''.'' \<and> toLowerCase e \<in> set [''jpg'', ''jpeg'', ''png'']))"

text \<open>\<open>parseInt\<close> of a name that starts with digits: the value of its leading digits.\<close>

definition parseInt :: "string \<Rightarrow> nat" where
  "parseInt f = foldl (\<lambda>n c. 10 * n + (of_char c - 48)) 0 (takeWhile isDigit f)"

record srcsets =
  avifSrcset :: "string list"
  webpSrcset :: "string list"
  jpgSrcset :: "string list"

text \<open>
  The loop over the size ladder as the homepage and the landing orchestrator write it:
  per width that the source reaches, three files below \<open>outputDir\<close> and three entries
  \<open>url/width.ext widthw\<close>. The two orchestrators differ in the option
  \<open>withoutEnlargement\<close> and in the WebP and JPEG quality.
\<close>

fun srcsetLoop :: "env \<Rightarrow> path \<Rightarrow> path \<Rightarrow> string \<Rightarrow> bool \<Rightarrow> nat \<Rightarrow> nat \<Rightarrow> nat \<Rightarrow> nat list
    \<Rightarrow> srcsets \<Rightarrow> state \<Rightarrow> srcsets outcome" where
  "srcsetLoop env inputPath outputDir url noEnlarge webpQ jpegQ mw [] acc s = (Inr acc, s)"
| "srcsetLoop env inputPath outputDir url noEnlarge webpQ jpegQ mw (w # ws) acc s =
     (if mw \<ge> w then
        andThen (toFile env inputPath w noEnlarge AVIF avifQuality
                   (pathJoin [outputDir, showNat w @ ''.avif'']) s) (\<lambda>_ s1.
        andThen (toFile env inputPath w noEnlarge WebP webpQ
                   (pathJoin [outputDir, showNat w @ ''.webp'']) s1) (\<lambda>_ s2.
        andThen (toFile env inputPath w noEnlarge JPEG jpegQ
                   (pathJoin [outputDir, showNat w @ ''.jpg'']) s2) (\<lambda>_ s3.
        srcsetLoop env inputPath outputDir url noEnlarge webpQ jpegQ mw ws
          \<lparr>avifSrcset = avifSrcset acc @ [url @ ''/'' @ showNat w @ ''.avif '' @ showNat w @ ''w''],
           webpSrcset = webpSrcset acc @ [url @ ''/'' @ showNat w @ ''.webp '' @ showNat w @ ''w''],
           jpgSrcset = jpgSrcset acc @ [url @ ''/'' @ showNat w @ ''.jpg '' @ showNat w @ ''w'']\<rparr>
          s3)))
      else srcsetLoop env inputPath outputDir url noEnlarge webpQ jpegQ mw ws acc s)"

definition joinSrcset :: "srcsets \<Rightarrow> srcset" where
  "joinSrcset l = \<lparr>avif = joinComma (avifSrcset l), webp = joinComma (webpSrcset l),
                   jpg = joinComma (jpgSrcset l)\<rparr>"

text \<open>The local variables of \<open>processHomepageImages\<close>.\<close>

record hrun =
  homepageImages :: "nat \<rightharpoonup> cdata"
  processedCount :: nat
  skippedCount :: nat

definition homepageError :: "string \<Rightarrow> string \<Rightarrow> state \<Rightarrow> state" where
  "homepageError f msg s =
     s\<lparr>console := console s @ [[CHR 0x0A] @ ''  Error processing '' @ f @ '': '' @ msg]\<rparr>"

text \<open>What the \<open>try\<close> block does for a homepage image that is not taken from the cache.\<close>

definition deriveHomepageImage :: "env \<Rightarrow> nat \<Rightarrow> path \<Rightarrow> path \<Rightarrow> state \<Rightarrow> homepage_image outcome" where
  "deriveHomepageImage env num inputPath outputDir s =
     (case sharpMetadata env inputPath of
        Inl msg \<Rightarrow> (Inl msg, s)
      | Inr (mw, mh) \<Rightarrow>
          andThen (ensureDir env outputDir s) (\<lambda>_ s0.
          andThen (srcsetLoop env inputPath outputDir (''/images/homepage/'' @ showNat num)
                     False imageQuality imageQuality mw imageSizes
                     \<lparr>avifSrcset = [], webpSrcset = [], jpgSrcset = []\<rparr> s0) (\<lambda>l s1.
            (case sharpPlaceholder env inputPath of
               Inl msg \<Rightarrow> (Inl msg, s1)
             | Inr b64 \<Rightarrow>
                 (Inr \<lparr>hp_index = num,
                       hp_path = ''/images/homepage/'' @ showNat num,
                       hp_srcset = joinSrcset l,
                       hp_src = ''/images/homepage/'' @ showNat num @ ''/''
                          @ showMax (mathMax (filter (\<lambda>sz. mw \<ge> sz) imageSizes)) @ ''.jpg'',
                       hp_placeholder = ''data:image/jpeg;base64,'' @ b64,
                       hp_aspectRatio = jsDivide mw mh,
                       hp_width = mw,
                       hp_height = mh,
                       hp_dominantColor = extractDominantColor env inputPath\<rparr>, s1)))))"

definition homepageInput :: "string \<Rightarrow> path" where
  "homepageInput f = pathJoin [homepageDir, f]"

definition homepageOutputDir :: "string \<Rightarrow> path" where
  "homepageOutputDir f = pathJoin [distDir, ''images'', ''homepage'', showNat (parseInt f)]"

definition homepageKey :: "string \<Rightarrow> string" where
  "homepageKey f = ''homepage/'' @ f"

text \<open>One turn of the loop over \<open>numberedImages\<close>.\<close>

definition processHomepageImage :: "env \<Rightarrow> string \<Rightarrow> state \<times> hrun \<Rightarrow> state \<times> hrun" where
  "processHomepageImage env f = (\<lambda>(s, a).
     case getFileHash env (homepageInput f) of
       Inl msg \<Rightarrow> (homepageError f msg s, a)
     | Inr fileHash \<Rightarrow>
         (case cachedFor s (homepageKey f) fileHash (homepageOutputDir f) of
            Some cached \<Rightarrow>
              (s, a\<lparr>homepageImages := (homepageImages a)(parseInt f \<mapsto> data cached),
                    skippedCount := skippedCount a + 1\<rparr>)
          | None \<Rightarrow>
              (case deriveHomepageImage env (parseInt f) (homepageInput f) (homepageOutputDir f) s of
                 (Inl msg, s1) \<Rightarrow> (homepageError f msg s1, a)
               | (Inr h, s1) \<Rightarrow>
                   (s1\<lparr>imageCache := (imageCache s1)
                           (homepageKey f \<mapsto> \<lparr>hash = fileHash, data = Homepage h\<rparr>),
                        imageCacheUpdated := True\<rparr>,
                    a\<lparr>homepageImages := (homepageImages a)(parseInt f \<mapsto> Homepage h),
                      processedCount := processedCount a + 1\<rparr>))))"

text \<open>The numbered images among the names that \<open>fs.readdir\<close> returned, sorted by number.\<close>

definition numberedImages :: "string list \<Rightarrow> string list" where
  "numberedImages files = sort_key parseInt (filter isNumberedImage files)"

definition newHrun :: hrun where
  "newHrun = \<lparr>homepageImages = Map.empty, processedCount = 0, skippedCount = 0\<rparr>"

definition processHomepageImages :: "env \<Rightarrow> state \<Rightarrow> hrun outcome" where
  "processHomepageImages env s =
     (if \<not> pathExists s homepageDir then (Inr newHrun, s)
      else (case readdir env homepageDir of
              Inl msg \<Rightarrow> (Inl msg, s)
            | Inr files \<Rightarrow>
                (case fold (processHomepageImage env) (numberedImages files) (s, newHrun) of
                   (s1, a) \<Rightarrow>
                     (if dom (homepageImages a) \<noteq> {}
                      then (case outputJson env (pathJoin [distDir, ''homepage.json'']) of
                              Some msg \<Rightarrow> (Inl msg, s1)
                            | None \<Rightarrow> (Inr a, wrote (pathJoin [distDir, ''homepage.json'']) s1))
                      else (Inr a, s1)))))"

subsection \<open>The orchestrator for the landing page: \<open>processLandingImages\<close>\<close>

definition landingSizes :: "nat list" where "landingSizes = [800, 1200, 1800]"

definition outputBase :: path where
  "outputBase = pathJoin [distDir, ''images'', ''landing'']"

definition endsWith :: "string \<Rightarrow> string \<Rightarrow> bool" where
  "endsWith s suffix = (length suffix \<le> length s \<and> drop (length s - length suffix) s = suffix)"

text \<open>The test \<open>/\.(jpg|jpeg|png|webp)$/i\<close>.\<close>

definition isLandingImage :: "string \<Rightarrow> bool" where
  "isLandingImage f =
     (\<exists>e \<in> set [''.jpg'', ''.jpeg'', ''.png'', ''.webp'']. endsWith (toLowerCase f) e)"

definition landingError :: "string \<Rightarrow> string \<Rightarrow> state \<Rightarrow> state" where
  "landingError f msg s =
     s\<lparr>console := console s @ [[CHR 0x0A] @ ''  Error processing '' @ f @ '': '' @ msg]\<rparr>"

definition landingUrl :: "string \<Rightarrow> nat \<Rightarrow> string" where
  "landingUrl type i = ''/images/landing/'' @ type @ ''/'' @ type @ ''-'' @ showNat (i + 1)"

definition landingOutputDir :: "string \<Rightarrow> nat \<Rightarrow> path" where
  "landingOutputDir type i = pathJoin [outputBase, type, type @ ''-'' @ showNat (i + 1)]"

text \<open>The \<open>try\<close> block of \<open>processFolder\<close> for one landing image.\<close>

definition deriveLandingImage :: "env \<Rightarrow> string \<Rightarrow> nat \<Rightarrow> path \<Rightarrow> state \<Rightarrow> landing_image outcome" where
  "deriveLandingImage env type i inputPath s =
     (case sharpMetadata env inputPath of
        Inl msg \<Rightarrow> (Inl msg, s)
      | Inr (mw, mh) \<Rightarrow>
          andThen (srcsetLoop env inputPath (landingOutputDir type i) (landingUrl type i)
                     True 80 82 mw landingSizes
                     \<lparr>avifSrcset = [], webpSrcset = [], jpgSrcset = []\<rparr> s) (\<lambda>l s1.
            (Inr \<lparr>ld_src = landingUrl type i @ ''/''
                      @ showMax (mathMax (filter (\<lambda>sz. mw \<ge> sz) landingSizes)) @ ''.jpg'',
                   ld_srcset = joinSrcset l,
                   ld_width = mw,
                   ld_height = mh,
                   ld_aspectRatio = jsDivide mw mh\<rparr>, s1)))"

text \<open>
  The \<open>try\<close> block of \<open>processFolder\<close> with its \<open>catch\<close>, for the file at position \<open>i\<close>.
\<close>

definition processLandingImage :: "env \<Rightarrow> path \<Rightarrow> string \<Rightarrow> nat \<times> string
    \<Rightarrow> state \<times> landing_image list \<Rightarrow> state \<times> landing_image list" where
  "processLandingImage env inputDir type = (\<lambda>(i, f) (s, res).
     case deriveLandingImage env type i (pathJoin [inputDir, f]) s of
       (Inl msg, s1) \<Rightarrow> (landingError f msg s1, res)
     | (Inr r, s1) \<Rightarrow> (s1, res @ [r]))"

text \<open>
  The loop of \<open>processFolder\<close>. \<open>fs.ensureDir(imgOutputDir)\<close> stands before the \<open>try\<close>:
  when it throws, the loop and the function are left.
\<close>

fun landingLoop :: "env \<Rightarrow> path \<Rightarrow> string \<Rightarrow> (nat \<times> string) list
    \<Rightarrow> state \<times> landing_image list \<Rightarrow> (landing_image list) outcome" where
  "landingLoop env inputDir type [] (s, res) = (Inr res, s)"
| "landingLoop env inputDir type ((i, f) # rest) (s, res) =
     andThen (ensureDir env (landingOutputDir type i) s) (\<lambda>_ s0.
       landingLoop env inputDir type rest (processLandingImage env inputDir type (i, f) (s0, res)))"

definition processFolder :: "env \<Rightarrow> path \<Rightarrow> string \<Rightarrow> state \<Rightarrow> (landing_image list) outcome" where
  "processFolder env inputDir type s =
     (if \<not> pathExists s inputDir then (Inr [], s)
      else (case readdir env inputDir of
              Inl msg \<Rightarrow> (Inl msg, s)
            | Inr files \<Rightarrow>
                landingLoop env inputDir type (enumerate 0 (filter isLandingImage files)) (s, [])))"

record landing =
  commercial :: "landing_image list"
  personal :: "landing_image list"

definition processLandingImages :: "env \<Rightarrow> state \<Rightarrow> landing outcome" where
  "processLandingImages env s =
     andThen (processFolder env (pathJoin [homepageDir, ''Commercial Home Images'']) ''commercial'' s)
       (\<lambda>c s1.
     andThen (processFolder env (pathJoin [homepageDir, ''Personal Home Images'']) ''personal'' s1)
       (\<lambda>p s2. (Inr \<lparr>commercial = c, personal = p\<rparr>, s2)))"

subsection \<open>The build\<close>

definition below :: "path \<Rightarrow> path \<Rightarrow> bool" where
  "below d p = (p = d \<or> take (length d + 1) p = d @ ''/'')"

text \<open>
  \<open>clean\<close> removes every item that \<open>fs.readdir\<close> lists in \<open>dist\<close>, except \<open>images\<close>;
  a removed item is gone with everything below it. \<open>fs.readdir\<close>, \<open>fs.remove\<close> and
  \<open>fs.ensureDir\<close> can throw.
\<close>

fun removeItems :: "env \<Rightarrow> string list \<Rightarrow> state \<Rightarrow> unit outcome" where
  "removeItems env [] s = (Inr (), s)"
| "removeItems env (item # items) s =
     (if item \<noteq> ''images''
      then (case fsRemove env (pathJoin [distDir, item]) of
              Some msg \<Rightarrow> (Inl msg, s)
            | None \<Rightarrow>
                removeItems env items
                  (s\<lparr>fsys := {p \<in> fsys s. \<not> below (pathJoin [distDir, item]) p}\<rparr>))
      else removeItems env items s)"

definition clean :: "env \<Rightarrow> state \<Rightarrow> unit outcome" where
  "clean env s =
     (if pathExists s distDir
      then (case readdir env distDir of
              Inl msg \<Rightarrow> (Inl msg, s)
            | Inr items \<Rightarrow> removeItems env items s)
      else ensureDir env distDir s)"

definition loadProjects :: "env \<Rightarrow> state \<Rightarrow> (project list) outcome" where
  "loadProjects env s =
     (if \<not> pathExists s projectsDir then (Inr [], s)
      else (projectConfigs env, s))"

text \<open>
  A step of the build that lies outside the image cache (loading videos and prints,
  generating pages, copying assets, the manifest, the sitemap, robots.txt): it returns
  or throws.
\<close>

definition step :: "env \<Rightarrow> string \<Rightarrow> state \<Rightarrow> unit outcome" where
  "step env name s = (case otherStep env name of Some msg \<Rightarrow> (Inl msg, s) | None \<Rightarrow> (Inr (), s))"

text \<open>The statements of the \<open>try\<close> block of \<open>build\<close> that precede \<open>saveImageCache\<close>.\<close>

definition buildSteps :: "env \<Rightarrow> state \<Rightarrow> unit outcome" where
  "buildSteps env s =
     andThen (clean env (loadImageCache s)) (\<lambda>_ s0.
     andThen (loadProjects env s0) (\<lambda>projects s1.
     andThen (step env ''loadVideos'' s1) (\<lambda>_ s2.
     andThen (step env ''loadPrints'' s2) (\<lambda>_ s3.
     (case processImages env projects s3 of (imgData, s4) \<Rightarrow>
     andThen (processHomepageImages env s4) (\<lambda>hpImages s5.
     andThen (processLandingImages env s5) (\<lambda>lnImages s6.
     andThen (step env ''loadCriticalCss'' s6) (\<lambda>_ s7.
     andThen (step env ''generatePages'' s7) (\<lambda>_ s8.
     andThen (step env ''copyAssets'' s8) (\<lambda>_ s9.
     andThen (step env ''generateCacheManifest'' s9) (\<lambda>_ s10.
     andThen (step env ''generateSitemap'' s10) (\<lambda>_ s11.
     step env ''generateRobotsTxt'' s11))))))))))))"

text \<open>
  \<open>build\<close>: the exit code of the process and the final state. The \<open>catch\<close> prints the
  error and calls \<open>process.exit(1)\<close>; a build that reaches its end, after
  \<open>saveImageCache\<close>, leaves the exit code 0.
\<close>

definition build :: "env \<Rightarrow> state \<Rightarrow> nat \<times> state" where
  "build env s =
     (case buildSteps env s of
        (Inl msg, s1) \<Rightarrow> (1, s1\<lparr>console := console s1 @ [[CHR 0x0A] @ '' Build failed: '' @ msg]\<rparr>)
      | (Inr _, s12) \<Rightarrow> (0, saveImageCache env s12))"

subsection \<open>Example builds\<close>

text \<open>
  A library that succeeds on every file: each source is 900 by 600 pixels, its hash is
  its path.
\<close>

definition goodEnv :: env where
  "goodEnv = \<lparr>getFileHash = (\<lambda>p. Inr p),
              sharpMetadata = (\<lambda>p. Inr (900, 600)),
              sharpToFile = (\<lambda>p w e f q. None),
              sharpPlaceholder = (\<lambda>p. Inr ''AAAA''),
              sharpDominant = (\<lambda>p. Some (232, 232, 230)),
              fsCopy = (\<lambda>p. None),
              fsEnsureDir = (\<lambda>p. None),
              fsRemove = (\<lambda>p. None),
              outputJson = (\<lambda>p. None),
              readdir = (\<lambda>p. Inr []),
              projectConfigs = Inr [],
              otherStep = (\<lambda>n. None)\<rparr>"

text \<open>A first build: nothing on disk, nothing cached.\<close>

definition emptyState :: state where
  "emptyState = \<lparr>imageCache = Map.empty, imageCacheUpdated = False, fsys = {}, writes = [],
                 cacheFile = Absent, console = []\<rparr>"

definition item :: "string \<Rightarrow> nat \<Rightarrow> image_item" where
  "item f i = \<lparr>img_file = f, img_index = i, img_size = ''full''\<rparr>"

definition oneProject :: project where
  "oneProject = \<lparr>slug = ''p'', title = ''P'', hasImages = True, images = [item ''a.jpg'' 1]\<rparr>"

text \<open>A library that cannot read any image, and a disk that refuses JSON files.\<close>

definition corruptEnv :: env where
  "corruptEnv = goodEnv\<lparr>sharpMetadata := (\<lambda>p. Inl ''unsupported image format'')\<rparr>"

definition readOnlyEnv :: env where
  "readOnlyEnv = goodEnv\<lparr>projectConfigs := Inr [oneProject], outputJson := (\<lambda>p. Some ''EACCES'')\<rparr>"

definition projectsState :: state where
  "projectsState = emptyState\<lparr>fsys := {''projects''}\<rparr>"

text \<open>An encoder that always fails, and a homepage folder with two slides.\<close>

definition flakyEnv :: env where
  "flakyEnv = goodEnv\<lparr>sharpToFile := (\<lambda>p w e f q. Some ''ENOSPC'')\<rparr>"

definition homeEnv :: env where
  "homeEnv = goodEnv\<lparr>readdir :=
     (\<lambda>p. if p = ''homepage'' then Inr [''2.jpg'', ''1.jpg'', ''notes.txt''] else Inr [])\<rparr>"

definition homeState :: state where
  "homeState = emptyState\<lparr>fsys := {''homepage''}\<rparr>"

text \<open>A cache left by an earlier build whose output directories are gone.\<close>

definition staleData :: cdata where
  "staleData = Results \<lparr>sizes = Map.empty, placeholder = ''old'', aspectRatio = RatioNaN,
                         width = 0, height = 0, dominantColor = ''#000000''\<rparr>"

definition staleState :: state where
  "staleState = emptyState\<lparr>imageCache :=
      [''p/a.jpg'' \<mapsto> \<lparr>hash = ''projects/p/original/a.jpg'', data = staleData\<rparr>,
       ''homepage/1.jpg'' \<mapsto> \<lparr>hash = ''homepage/1.jpg'', data = staleData\<rparr>]\<rparr>"

text \<open>Further states, libraries and inventories used as examples.\<close>

definition hitState :: state where
  "hitState = staleState\<lparr>fsys := {''dist/images/p/01'', ''dist/images/homepage/1''}\<rparr>"

definition inProject :: run where
  "inProject = newRun\<lparr>imageData := [''p'' \<mapsto> Map.empty]\<rparr>"

definition smallEnv :: env where
  "smallEnv = goodEnv\<lparr>sharpMetadata := (\<lambda>p. Inr (300, 200))\<rparr>"

definition landingEnv :: env where
  "landingEnv = goodEnv\<lparr>readdir :=
     (\<lambda>p. if p = ''homepage/Commercial Home Images'' then Inr [''a.jpg''] else Inr [])\<rparr>"

definition landingState :: state where
  "landingState = emptyState\<lparr>
     imageCache := (\<lambda>k. Some \<lparr>hash = ''homepage/Commercial Home Images/a.jpg'', data = staleData\<rparr>),
     fsys := {''homepage/Commercial Home Images'', ''dist/images/landing/commercial/commercial-1''}\<rparr>"

definition brokenEnv :: env where
  "brokenEnv = goodEnv\<lparr>otherStep :=
     (\<lambda>n. if n = ''generatePages'' then Some ''template not found'' else None)\<rparr>"

definition tenProject :: project where
  "tenProject = \<lparr>slug = ''p'', title = ''P'', hasImages = True,
     images = [item ''01.jpg'' 1, item ''02.jpg'' 2, item ''03.jpg'' 3, item ''04.jpg'' 4,
               item ''05.jpg'' 5, item ''06.jpg'' 6, item ''07.jpg'' 7, item ''08.jpg'' 8,
               item ''09.jpg'' 9, item ''10.jpg'' 10]\<rparr>"

definition tenEnv :: env where
  "tenEnv = goodEnv\<lparr>sharpMetadata :=
     (\<lambda>p. if p = ''projects/p/original/05.jpg'' then Inl ''unsupported image format''
          else Inr (900, 600))\<rparr>"

text \<open>
  A project with two images and the cache of an earlier build of it; a homepage folder
  in which two files carry the number 1, with the cache of an earlier build; a homepage
  library that cannot read the second image of the project or the second slide.
\<close>

definition twoProject :: project where
  "twoProject = \<lparr>slug = ''p'', title = ''P'', hasImages = True,
                  images = [item ''a.jpg'' 1, item ''b.jpg'' 2]\<rparr>"

definition twoState :: state where
  "twoState = emptyState\<lparr>imageCache :=
      [''p/a.jpg'' \<mapsto> \<lparr>hash = ''projects/p/original/a.jpg'', data = staleData\<rparr>,
       ''p/b.jpg'' \<mapsto> \<lparr>hash = ''projects/p/original/b.jpg'', data = staleData\<rparr>,
       ''homepage/1.jpg'' \<mapsto> \<lparr>hash = ''homepage/1.jpg'', data = staleData\<rparr>,
       ''homepage/2.jpg'' \<mapsto> \<lparr>hash = ''homepage/2.jpg'', data = staleData\<rparr>],
      fsys := {''homepage''}\<rparr>"

definition twinEnv :: env where
  "twinEnv = goodEnv\<lparr>readdir :=
     (\<lambda>p. if p = ''homepage'' then Inr [''1.jpg'', ''1.png''] else Inr [])\<rparr>"

definition twinState :: state where
  "twinState = emptyState\<lparr>imageCache :=
      [''homepage/1.jpg'' \<mapsto> \<lparr>hash = ''homepage/1.jpg'', data = staleData\<rparr>,
       ''homepage/1.png'' \<mapsto> \<lparr>hash = ''homepage/1.png'', data = staleData\<rparr>],
      fsys := {''homepage''}\<rparr>"

definition halfEnv :: env where
  "halfEnv = goodEnv\<lparr>sharpMetadata :=
     (\<lambda>p. if p = ''projects/p/original/b.jpg'' then Inl ''unsupported image format''
          else Inr (900, 600))\<rparr>"

definition slideEnv :: env where
  "slideEnv = homeEnv\<lparr>sharpMetadata :=
     (\<lambda>p. if p = ''homepage/2.jpg'' then Inl ''unsupported image format'' else Inr (900, 600))\<rparr>"

subsection \<open>Keys of an inventory\<close>

text \<open>The cache keys of the images of an inventory, in the order of the loops.\<close>

definition keysOf :: "project \<Rightarrow> string list" where
  "keysOf p = map (cacheKeyOf p) (images p)"

definition allKeys :: "project list \<Rightarrow> string list" where
  "allKeys ps = concat (map keysOf (filter hasImages ps))"

subsection \<open>The state in which a loop reaches an image\<close>

text \<open>
  \<open>reached env before project pre s\<close>: the state and the local variables with which
  \<open>processImages\<close>, started in \<open>s\<close>, has gone through the projects \<open>before\<close> and through
  the images \<open>pre\<close> of \<open>project\<close>. \<open>reachedHome\<close> is the same for the loop of
  \<open>processHomepageImages\<close>.
\<close>

definition reached :: "env \<Rightarrow> project list \<Rightarrow> project \<Rightarrow> image_item list \<Rightarrow> state
    \<Rightarrow> state \<times> run" where
  "reached env before project pre s =
     (case fold (processProject env) before (s, newRun) of
        (s0, a0) \<Rightarrow>
          fold (processProjectImage env project) pre
            (s0, fold (checkDuplicate project) (images project)
                   (a0\<lparr>imageData := (imageData a0)(slug project \<mapsto> Map.empty),
                       projectProcessed := 0, projectSkipped := 0\<rparr>)))"

definition reachedHome :: "env \<Rightarrow> string list \<Rightarrow> state \<Rightarrow> state \<times> hrun" where
  "reachedHome env pre s = fold (processHomepageImage env) pre (s, newHrun)"

subsection \<open>What a derivation may change\<close>

text \<open>
  \<open>touches d p\<close>: \<open>p\<close> is the directory \<open>d\<close>, a directory above it, or a path below
  it. These are the paths that a derivation into \<open>d\<close> may create: \<open>createsIn d s s'\<close>.
\<close>

definition touches :: "path \<Rightarrow> path \<Rightarrow> bool" where
  "touches d p = (p \<in> set (dirChain [] d) \<or> below d p)"

definition createsIn :: "path \<Rightarrow> state \<Rightarrow> state \<Rightarrow> bool" where
  "createsIn d s s' = (\<forall>p \<in> fsys s'. p \<in> fsys s \<or> touches d p)"

text \<open>
  \<open>onlyWrites s s'\<close>: the state \<open>s'\<close> differs from \<open>s\<close> at most by paths that were
  created and files that were written.
\<close>

definition onlyWrites :: "state \<Rightarrow> state \<Rightarrow> bool" where
  "onlyWrites s s' =
     (imageCache s' = imageCache s \<and> imageCacheUpdated s' = imageCacheUpdated s \<and>
      cacheFile s' = cacheFile s \<and> console s' = console s \<and> fsys s \<subseteq> fsys s' \<and>
      take (length (writes s)) (writes s') = writes s)"

text \<open>The state with another cache and another flag.\<close>

definition withCache :: "(string \<rightharpoonup> cache_entry) \<Rightarrow> bool \<Rightarrow> state \<Rightarrow> state" where
  "withCache c u s = s\<lparr>imageCache := c, imageCacheUpdated := u\<rparr>"

text \<open>
  \<open>wroteOnly A s s'\<close>: between \<open>s\<close> and \<open>s'\<close> files were written, and only files of \<open>A\<close>.
\<close>

definition wroteOnly :: "path set \<Rightarrow> state \<Rightarrow> state \<Rightarrow> bool" where
  "wroteOnly A s s' = (\<exists>new. writes s' = writes s @ new \<and> set new \<subseteq> A)"

section \<open>Properties of the build script\<close>

subsection \<open>No upscaling\<close>

lemma generateSizes_ok:
  "generateSizes env inputPath outputDir mw ws acc s = (Inr szs, s') \<Longrightarrow>
     szs = (\<lambda>w. if w \<in> set ws \<and> w \<le> mw then Some True else acc w) \<and>
     writes s' = writes s @ concat (map (sizeFiles outputDir) (filter (\<lambda>w. w \<le> mw) ws)) \<and>
     fsys s' = fsys s \<union> set (concat (map (sizeFiles outputDir) (filter (\<lambda>w. w \<le> mw) ws)))"
proof (induction ws arbitrary: acc s)
  case Nil
  then show ?case by simp
next
  case (Cons w ws)
  show ?case
  proof (cases "w \<le> mw")
    case False
    with Cons.prems have "generateSizes env inputPath outputDir mw ws acc s = (Inr szs, s')"
      by simp
    from Cons.IH [OF this] False show ?thesis by (auto simp: fun_eq_iff)
  next
    case True
    let ?s3 = "wrote (pathJoin [outputDir, showNat w] @ ''.jpg'')
                 (wrote (pathJoin [outputDir, showNat w] @ ''.webp'')
                    (wrote (pathJoin [outputDir, showNat w] @ ''.avif'') s))"
    from Cons.prems True
    have rest: "generateSizes env inputPath outputDir mw ws (acc(w \<mapsto> True)) ?s3 = (Inr szs, s')"
      by (auto simp: andThen_def toFile_def split: option.splits)
    have w3: "writes ?s3 = writes s @ sizeFiles outputDir w"
      and f3: "fsys ?s3 = fsys s \<union> set (sizeFiles outputDir w)"
      by (auto simp: wrote_def sizeFiles_def)
    from Cons.IH [OF rest] True w3 f3 show ?thesis
      by (auto simp: fun_eq_iff)
  qed
qed

lemma wroteOnly_refl: "wroteOnly A s s"
  by (simp add: wroteOnly_def)

lemma wroteOnly_trans: "wroteOnly A s s1 \<Longrightarrow> wroteOnly B s1 s2 \<Longrightarrow> wroteOnly (A \<union> B) s s2"
  by (fastforce simp: wroteOnly_def)

lemma wroteOnly_mono: "wroteOnly A s s' \<Longrightarrow> A \<subseteq> B \<Longrightarrow> wroteOnly B s s'"
  by (auto simp: wroteOnly_def)

lemma toFile_wroteOnly: "toFile env i w n f q out s = (res, s') \<Longrightarrow> wroteOnly {out} s s'"
  by (auto simp: toFile_def wroteOnly_def wrote_def split: option.splits)

lemma copyFile_wroteOnly: "copyFile env i out s = (res, s') \<Longrightarrow> wroteOnly {out} s s'"
  by (auto simp: copyFile_def wroteOnly_def wrote_def split: option.splits)

lemma andThen_wroteOnly:
  assumes "andThen m f = (res, s')"
    and "\<And>r1 s1. m = (r1, s1) \<Longrightarrow> wroteOnly A s s1"
    and "\<And>x s1 r2 s2. f x s1 = (r2, s2) \<Longrightarrow> wroteOnly B s1 s2"
  shows "wroteOnly (A \<union> B) s s'"
proof (cases m)
  case (Pair r1 s1)
  show ?thesis
  proof (cases r1)
    case (Inl e)
    with Pair assms(1) have "s' = s1" by (simp add: andThen_def)
    with assms(2) [OF Pair] show ?thesis by (auto intro: wroteOnly_mono)
  next
    case (Inr x)
    with Pair assms(1) have "f x s1 = (res, s')" by (simp add: andThen_def)
    from wroteOnly_trans [OF assms(2) [OF Pair] assms(3) [OF this]] show ?thesis .
  qed
qed

lemma generateSizes_wroteOnly:
  "generateSizes env i out mw ws acc s = (res, s') \<Longrightarrow>
     wroteOnly (set (concat (map (sizeFiles out) (filter (\<lambda>w. w \<le> mw) ws)))) s s'"
proof (induction ws arbitrary: acc s res s')
  case Nil
  then show ?case by (simp add: wroteOnly_refl)
next
  case (Cons w ws)
  let ?rest = "set (concat (map (sizeFiles out) (filter (\<lambda>w. w \<le> mw) ws)))"
  show ?case
  proof (cases "w \<le> mw")
    case False
    with Cons show ?thesis by simp
  next
    case True
    from Cons.prems True show ?thesis
      apply simp
      apply (rule wroteOnly_mono)
       apply (erule andThen_wroteOnly, erule toFile_wroteOnly)
       apply (erule andThen_wroteOnly, erule toFile_wroteOnly)
       apply (erule andThen_wroteOnly, erule toFile_wroteOnly)
       apply (erule Cons.IH)
      apply (auto simp: sizeFiles_def)
      done
  qed
qed

lemma placeholder_copy_wroteOnly:
  "(case pl of Inl msg \<Rightarrow> (Inl msg, s1)
    | Inr b64 \<Rightarrow> andThen (copyFile env i orig s1) (\<lambda>_. Pair (Inr (f b64)))) = (r2, s2)
   \<Longrightarrow> wroteOnly {orig} s1 s2"
  by (auto simp: andThen_def copyFile_def wrote_def wroteOnly_def
      split: sum.splits option.splits)

lemma ensureDir_wroteOnly: "ensureDir env p s = (res, s') \<Longrightarrow> wroteOnly {} s s'"
  by (auto simp: ensureDir_def mkdirp_def wroteOnly_def split: option.splits)

lemma processImage_wroteOnly:
  assumes m: "sharpMetadata env i = Inr (mw, mh)"
    and p: "processImage env i out s = (res, s')"
  shows "wroteOnly (set (concat (map (sizeFiles out) (filter (\<lambda>w. w \<le> mw) imageSizes)))
                     \<union> {pathJoin [out, ''original.jpg'']}) s s'"
proof -
  from p m show ?thesis
    apply (simp add: processImage_def)
    apply (rule wroteOnly_mono)
     apply (erule andThen_wroteOnly, erule ensureDir_wroteOnly)
     apply (erule andThen_wroteOnly, erule generateSizes_wroteOnly)
     apply (erule placeholder_copy_wroteOnly)
    apply auto
    done
qed

text \<open>
  C3. For a source of width \<open>mw\<close>, whatever \<open>processImage\<close> does, every file it writes
  is the copy of the original or a file of a width of the ladder \<open>[400, 800, 1200]\<close> that
  does not exceed \<open>mw\<close>: no file of a width above \<open>mw\<close> is written, also when the call
  throws. When the call returns, the keys of \<open>results.sizes\<close> are exactly the widths of the
  ladder that do not exceed \<open>mw\<close>, and the files written are, for each of these widths in
  ladder order, the AVIF, the WebP and the JPEG file of that width, followed by the copy of
  the original, and nothing else.
\<close>

theorem processImage_no_upscaling:
  assumes "sharpMetadata env inputPath = Inr (mw, mh)"
    and "processImage env inputPath outputDir s = (res, s')"
  shows "(\<exists>new. writes s' = writes s @ new
            \<and> (\<forall>p \<in> set new. p = pathJoin [outputDir, ''original.jpg'']
                   \<or> (\<exists>w \<in> {400, 800, 1200}. w \<le> mw \<and> p \<in> set (sizeFiles outputDir w))))
       \<and> (\<forall>r. res = Inr r \<longrightarrow>
            dom (sizes r) = {w \<in> {400, 800, 1200}. w \<le> mw}
          \<and> writes s' = writes s
              @ concat (map (sizeFiles outputDir) (filter (\<lambda>w. w \<le> mw) [400, 800, 1200]))
              @ [pathJoin [outputDir, ''original.jpg'']]
          \<and> (\<forall>w \<in> dom (sizes r). w \<le> mw \<and> set (sizeFiles outputDir w) \<subseteq> fsys s'))"
proof (rule conjI)
  from processImage_wroteOnly [OF assms] obtain new where
    n: "writes s' = writes s @ new"
    and a: "set new \<subseteq> set (concat (map (sizeFiles outputDir) (filter (\<lambda>w. w \<le> mw) imageSizes)))
                       \<union> {pathJoin [outputDir, ''original.jpg'']}"
    unfolding wroteOnly_def by blast
  have "\<forall>p \<in> set new. p = pathJoin [outputDir, ''original.jpg'']
          \<or> (\<exists>w \<in> {400, 800, 1200}. w \<le> mw \<and> p \<in> set (sizeFiles outputDir w))"
  proof
    fix p assume "p \<in> set new"
    with a have "p = pathJoin [outputDir, ''original.jpg'']
        \<or> p \<in> set (concat (map (sizeFiles outputDir) (filter (\<lambda>w. w \<le> mw) imageSizes)))"
      by blast
    then show "p = pathJoin [outputDir, ''original.jpg'']
          \<or> (\<exists>w \<in> {400, 800, 1200}. w \<le> mw \<and> p \<in> set (sizeFiles outputDir w))"
    proof (elim disjE)
      assume "p = pathJoin [outputDir, ''original.jpg'']"
      then show ?thesis by (rule disjI1)
    next
      assume "p \<in> set (concat (map (sizeFiles outputDir) (filter (\<lambda>w. w \<le> mw) imageSizes)))"
      then obtain w where "w \<in> set imageSizes" "w \<le> mw" "p \<in> set (sizeFiles outputDir w)"
        by auto
      then have "\<exists>w \<in> {400, 800, 1200}. w \<le> mw \<and> p \<in> set (sizeFiles outputDir w)"
        by (auto simp: imageSizes_def)
      then show ?thesis by (rule disjI2)
    qed
  qed
  with n show "\<exists>new. writes s' = writes s @ new
            \<and> (\<forall>p \<in> set new. p = pathJoin [outputDir, ''original.jpg'']
                   \<or> (\<exists>w \<in> {400, 800, 1200}. w \<le> mw \<and> p \<in> set (sizeFiles outputDir w)))"
    by (intro exI conjI)
next
  show "\<forall>r. res = Inr r \<longrightarrow>
            dom (sizes r) = {w \<in> {400, 800, 1200}. w \<le> mw}
          \<and> writes s' = writes s
              @ concat (map (sizeFiles outputDir) (filter (\<lambda>w. w \<le> mw) [400, 800, 1200]))
              @ [pathJoin [outputDir, ''original.jpg'']]
          \<and> (\<forall>w \<in> dom (sizes r). w \<le> mw \<and> set (sizeFiles outputDir w) \<subseteq> fsys s')"
  proof (intro allI impI)
    fix r assume res: "res = Inr r"
    from assms res obtain szs s1 b64 where
      gen: "generateSizes env inputPath outputDir mw imageSizes Map.empty (mkdirp outputDir s)
              = (Inr szs, s1)"
      and ph: "sharpPlaceholder env inputPath = Inr b64"
      and cp: "fsCopy env inputPath = None"
      and s': "s' = wrote (pathJoin [outputDir, ''original.jpg'']) s1"
      and r: "sizes r = szs"
      by (auto simp: processImage_def andThen_def copyFile_def ensureDir_def
               split: sum.splits prod.splits option.splits)
    note g = generateSizes_ok [OF gen]
    have d: "dom (sizes r) = {w \<in> {400, 800, 1200}. w \<le> mw}"
      using g r by (auto simp: imageSizes_def dom_def)
    have w: "writes s' = writes s
             @ concat (map (sizeFiles outputDir) (filter (\<lambda>w. w \<le> mw) [400, 800, 1200]))
             @ [pathJoin [outputDir, ''original.jpg'']]"
      using g s' by (simp add: wrote_def ensureDir_def mkdirp_def imageSizes_def)
    have f: "\<forall>w \<in> dom (sizes r). w \<le> mw \<and> set (sizeFiles outputDir w) \<subseteq> fsys s'"
    proof
      fix w assume "w \<in> dom (sizes r)"
      with d have wl: "w \<in> set imageSizes" "w \<le> mw" by (auto simp: imageSizes_def)
      then have "set (sizeFiles outputDir w)
                   \<subseteq> set (concat (map (sizeFiles outputDir) (filter (\<lambda>w. w \<le> mw) imageSizes)))"
        by auto
      with g s' wl show "w \<le> mw \<and> set (sizeFiles outputDir w) \<subseteq> fsys s'"
        by (auto simp: wrote_def)
    qed
    from d w f show "dom (sizes r) = {w \<in> {400, 800, 1200}. w \<le> mw}
          \<and> writes s' = writes s
              @ concat (map (sizeFiles outputDir) (filter (\<lambda>w. w \<le> mw) [400, 800, 1200]))
              @ [pathJoin [outputDir, ''original.jpg'']]
          \<and> (\<forall>w \<in> dom (sizes r). w \<le> mw \<and> set (sizeFiles outputDir w) \<subseteq> fsys s')"
      by (intro conjI)
  qed
qed

theorem processImage_no_upscaling_witness:
  "\<exists>r s'. sharpMetadata goodEnv ''projects/p/original/a.jpg'' = Inr (900, 600)
     \<and> processImage goodEnv ''projects/p/original/a.jpg'' ''dist/images/p/01'' emptyState = (Inr r, s')
     \<and> dom (sizes r) = {400, 800}
     \<and> writes s' =
         [''dist/images/p/01/400.avif'', ''dist/images/p/01/400.webp'', ''dist/images/p/01/400.jpg'',
          ''dist/images/p/01/800.avif'', ''dist/images/p/01/800.webp'', ''dist/images/p/01/800.jpg'',
          ''dist/images/p/01/original.jpg'']"
proof -
  let ?P = "processImage goodEnv ''projects/p/original/a.jpg'' ''dist/images/p/01'' emptyState"
  have m: "sharpMetadata goodEnv ''projects/p/original/a.jpg'' = Inr (900, 600)"
    by (simp add: goodEnv_def)
  have "\<not> isl (fst ?P)"
    by (simp add: processImage_def goodEnv_def emptyState_def imageSizes_def andThen_def
                  toFile_def copyFile_def wrote_def ensureDir_def mkdirp_def)
  then obtain r where "fst ?P = Inr r" by (cases "fst ?P") auto
  moreover define s' where "s' = snd ?P"
  ultimately have p: "?P = (Inr r, s')" by (simp add: prod_eq_iff)
  have s400: "showNat 400 = ''400''" and s800: "showNat 800 = ''800''" by code_simp+
  have e: "writes emptyState = []" by (simp add: emptyState_def)
  note t = processImage_no_upscaling [OF m p, THEN conjunct2, rule_format, OF refl]
  from t [THEN conjunct1] have d: "dom (sizes r) = {400, 800}"
    by auto
  from t [THEN conjunct2, THEN conjunct1]
  have w: "writes s' =
         [''dist/images/p/01/400.avif'', ''dist/images/p/01/400.webp'', ''dist/images/p/01/400.jpg'',
          ''dist/images/p/01/800.avif'', ''dist/images/p/01/800.webp'', ''dist/images/p/01/800.jpg'',
          ''dist/images/p/01/original.jpg'']"
    by (simp add: sizeFiles_def e s400 s800)
  from m p d w show ?thesis by (intro exI conjI)
qed

subsection \<open>Derivations only write files\<close>

lemma onlyWrites_refl [simp]: "onlyWrites s s"
  by (simp add: onlyWrites_def)

lemma onlyWrites_trans: "onlyWrites s s1 \<Longrightarrow> onlyWrites s1 s2 \<Longrightarrow> onlyWrites s s2"
  unfolding onlyWrites_def
  by (metis (no_types, lifting) append_eq_conv_conj append_take_drop_id subset_trans take_append
      length_append le_add1 take_all_iff append.assoc)

lemma onlyWrites_wrote [simp]: "onlyWrites s (wrote p s)"
  by (auto simp: onlyWrites_def wrote_def)

lemma onlyWrites_ensureDir [simp]: "onlyWrites s (mkdirp p s)"
  by (auto simp: onlyWrites_def ensureDir_def mkdirp_def)

lemma ensureDir_onlyWrites: "ensureDir env p s = (res, s') \<Longrightarrow> onlyWrites s s'"
  by (auto simp: ensureDir_def split: option.splits)

lemma toFile_onlyWrites: "toFile env i w n f q out s = (res, s') \<Longrightarrow> onlyWrites s s'"
  by (auto simp: toFile_def split: option.splits)

lemma copyFile_onlyWrites: "copyFile env i out s = (res, s') \<Longrightarrow> onlyWrites s s'"
  by (auto simp: copyFile_def split: option.splits)

lemma andThen_onlyWrites:
  assumes "andThen m f = (res, s')"
    and "\<And>r1 s1. m = (r1, s1) \<Longrightarrow> onlyWrites s s1"
    and "\<And>x s1 r2 s2. f x s1 = (r2, s2) \<Longrightarrow> onlyWrites s1 s2"
  shows "onlyWrites s s'"
proof (cases m)
  case (Pair r1 s1)
  show ?thesis
  proof (cases r1)
    case (Inl e)
    with Pair assms(1) have "s' = s1" by (simp add: andThen_def)
    with assms(2) [OF Pair] show ?thesis by simp
  next
    case (Inr x)
    with Pair assms(1) have "f x s1 = (res, s')" by (simp add: andThen_def)
    from onlyWrites_trans [OF assms(2) [OF Pair] assms(3) [OF this]] show ?thesis .
  qed
qed

lemma generateSizes_onlyWrites:
  "generateSizes env i out mw ws acc s = (res, s') \<Longrightarrow> onlyWrites s s'"
proof (induction ws arbitrary: acc s res s')
  case Nil
  then show ?case by simp
next
  case (Cons w ws)
  show ?case
  proof (cases "w \<le> mw")
    case False
    with Cons show ?thesis by simp
  next
    case True
    with Cons.prems show ?thesis
      apply simp
      apply (erule andThen_onlyWrites, erule toFile_onlyWrites)
      apply (erule andThen_onlyWrites, erule toFile_onlyWrites)
      apply (erule andThen_onlyWrites, erule toFile_onlyWrites)
      apply (erule Cons.IH)
      done
  qed
qed

lemma srcsetLoop_onlyWrites:
  "srcsetLoop env i out url n wq jq mw ws acc s = (res, s') \<Longrightarrow> onlyWrites s s'"
proof (induction ws arbitrary: acc s res s')
  case Nil
  then show ?case by simp
next
  case (Cons w ws)
  show ?case
  proof (cases "w \<le> mw")
    case False
    with Cons show ?thesis by simp
  next
    case True
    with Cons.prems show ?thesis
      apply simp
      apply (erule andThen_onlyWrites, erule toFile_onlyWrites)
      apply (erule andThen_onlyWrites, erule toFile_onlyWrites)
      apply (erule andThen_onlyWrites, erule toFile_onlyWrites)
      apply (erule Cons.IH)
      done
  qed
qed

lemma processImage_onlyWrites:
  assumes "processImage env i out s = (res, s')" shows "onlyWrites s s'"
proof (cases "sharpMetadata env i")
  case (Inl e)
  with assms show ?thesis by (simp add: processImage_def)
next
  case (Inr m)
  obtain mw mh where m: "m = (mw, mh)" by (cases m)
  from assms Inr m show ?thesis
    apply (simp add: processImage_def)
    apply (erule andThen_onlyWrites, erule ensureDir_onlyWrites)
    apply (erule andThen_onlyWrites, erule generateSizes_onlyWrites)
    apply (cases "sharpPlaceholder env i")
     apply simp
    apply simp
    apply (erule andThen_onlyWrites, erule copyFile_onlyWrites)
    apply simp
    done
qed

lemma deriveHomepageImage_onlyWrites:
  assumes "deriveHomepageImage env num i out s = (res, s')" shows "onlyWrites s s'"
proof (cases "sharpMetadata env i")
  case (Inl e)
  with assms show ?thesis by (simp add: deriveHomepageImage_def)
next
  case (Inr m)
  obtain mw mh where m: "m = (mw, mh)" by (cases m)
  from assms Inr m show ?thesis
    apply (simp add: deriveHomepageImage_def)
    apply (erule andThen_onlyWrites, erule ensureDir_onlyWrites)
    apply (erule andThen_onlyWrites, erule srcsetLoop_onlyWrites)
    apply (cases "sharpPlaceholder env i")
     apply simp
    apply simp
    done
qed

lemma deriveLandingImage_onlyWrites:
  assumes "deriveLandingImage env type k i s = (res, s')" shows "onlyWrites s s'"
proof (cases "sharpMetadata env i")
  case (Inl e)
  with assms show ?thesis by (simp add: deriveLandingImage_def)
next
  case (Inr m)
  obtain mw mh where m: "m = (mw, mh)" by (cases m)
  from assms Inr m show ?thesis
    apply (simp add: deriveLandingImage_def)
    apply (erule andThen_onlyWrites)
     apply (erule srcsetLoop_onlyWrites)
    apply simp
    done
qed


lemmas eval_defs =
  goodEnv_def emptyState_def item_def oneProject_def corruptEnv_def readOnlyEnv_def
  projectsState_def staleData_def staleState_def hitState_def inProject_def smallEnv_def
  landingEnv_def landingState_def brokenEnv_def tenProject_def tenEnv_def withCache_def
  flakyEnv_def homeEnv_def homeState_def allKeys_def keysOf_def
  twoProject_def twoState_def twinEnv_def twinState_def slideEnv_def halfEnv_def
  reached_def reachedHome_def touches_def
  distDir_def projectsDir_def homepageDir_def imageCachePath_def imageSizes_def
  imageQuality_def avifQuality_def landingSizes_def outputBase_def
  andThen_def pathExists_def ensureDir_def mkdirp_def wrote_def toFile_def copyFile_def
  extractDominantColor_def padStart_def showNat.simps showHex.simps digitChar_def jsDivide_def
  processImage_def cachedFor_def needsProcessing_def loadImageCache_def saveImageCache_def
  toLowerCase_def lowerChar_def validateImage_def checkDuplicate_def
  inputPathOf_def outputDirOf_def cacheKeyOf_def projectError_def setImage_def
  processProjectImage_def processProject_def newRun_def processImages_def
  isDigit_def isNumberedImage_def parseInt_def joinSrcset_def homepageError_def
  deriveHomepageImage_def homepageInput_def homepageOutputDir_def homepageKey_def
  processHomepageImage_def numberedImages_def newHrun_def processHomepageImages_def
  endsWith_def isLandingImage_def landingError_def landingUrl_def landingOutputDir_def
  deriveLandingImage_def processLandingImage_def processFolder_def processLandingImages_def
  below_def clean_def loadProjects_def step_def buildSteps_def build_def Let_def

subsection \<open>What the loops change\<close>

lemma toFile_fst: "fst (toFile env i w n f q out s) = fst (toFile env i w n f q out s')"
  by (simp add: toFile_def split: option.splits)

lemma copyFile_fst: "fst (copyFile env i out s) = fst (copyFile env i out s')"
  by (simp add: copyFile_def split: option.splits)

lemma andThen_fst:
  assumes "fst m = fst m'" and "\<And>x s s'. fst (f x s) = fst (f x s')"
  shows "fst (andThen m f) = fst (andThen m' f)"
proof (cases m; cases m')
  fix r s r' s' assume m: "m = (r, s)" "m' = (r', s')"
  with assms(1) have "r' = r" by simp
  with m assms(2) show ?thesis by (cases r) (simp_all add: andThen_def)
qed

lemma generateSizes_fst:
  "fst (generateSizes env i out mw ws acc s) = fst (generateSizes env i out mw ws acc s')"
proof (induction ws arbitrary: acc s s')
  case Nil
  show ?case by simp
next
  case (Cons w ws)
  show ?case
  proof (cases "w \<le> mw")
    case False
    with Cons show ?thesis by simp
  next
    case True
    then show ?thesis
      apply simp
      apply (rule andThen_fst, rule toFile_fst)
      apply (rule andThen_fst, rule toFile_fst)
      apply (rule andThen_fst, rule toFile_fst)
      apply (rule Cons.IH)
      done
  qed
qed

lemma srcsetLoop_fst:
  "fst (srcsetLoop env i out url n wq jq mw ws acc s)
     = fst (srcsetLoop env i out url n wq jq mw ws acc s')"
proof (induction ws arbitrary: acc s s')
  case Nil
  show ?case by simp
next
  case (Cons w ws)
  show ?case
  proof (cases "w \<le> mw")
    case False
    with Cons show ?thesis by simp
  next
    case True
    then show ?thesis
      apply simp
      apply (rule andThen_fst, rule toFile_fst)
      apply (rule andThen_fst, rule toFile_fst)
      apply (rule andThen_fst, rule toFile_fst)
      apply (rule Cons.IH)
      done
  qed
qed

lemma ensureDir_fst: "fst (ensureDir env p s) = fst (ensureDir env p s')"
  by (simp add: ensureDir_def split: option.splits)

lemma processImage_fst:
  "fst (processImage env i out s) = fst (processImage env i out s')"
proof (cases "sharpMetadata env i")
  case (Inl e)
  then show ?thesis by (simp add: processImage_def)
next
  case (Inr m)
  obtain mw mh where "m = (mw, mh)" by (cases m)
  with Inr show ?thesis
    apply (simp add: processImage_def)
    apply (rule andThen_fst, rule ensureDir_fst)
    apply (rule andThen_fst, rule generateSizes_fst)
    apply (cases "sharpPlaceholder env i")
     apply simp
    apply simp
    apply (rule andThen_fst, rule copyFile_fst)
    apply simp
    done
qed

lemma deriveHomepageImage_fst:
  "fst (deriveHomepageImage env num i out s) = fst (deriveHomepageImage env num i out s')"
proof (cases "sharpMetadata env i")
  case (Inl e)
  then show ?thesis by (simp add: deriveHomepageImage_def)
next
  case (Inr m)
  obtain mw mh where "m = (mw, mh)" by (cases m)
  with Inr show ?thesis
    apply (simp add: deriveHomepageImage_def)
    apply (rule andThen_fst, rule ensureDir_fst)
    apply (rule andThen_fst, rule srcsetLoop_fst)
    apply (cases "sharpPlaceholder env i")
     apply simp
    apply simp
    done
qed




lemma processImage_frame:
  assumes "processImage env i out s = (r, s1)"
  shows "imageCache s1 = imageCache s" "fsys s \<subseteq> fsys s1" "console s1 = console s"
    "imageCacheUpdated s1 = imageCacheUpdated s"
  using processImage_onlyWrites [OF assms] by (simp_all add: onlyWrites_def)

lemma processProjectImage_state:
  assumes "processProjectImage env p img (s, a) = (s', a')"
  shows "\<exists>s1. onlyWrites s s1 \<and>
           (s' = s1 \<or> (\<exists>msg. s' = projectError img msg s1)
            \<or> (\<exists>e. s' = s1\<lparr>imageCache := (imageCache s1)(cacheKeyOf p img \<mapsto> e),
                              imageCacheUpdated := True\<rparr>))"
proof (cases "getFileHash env (inputPathOf p img)")
  case (Inl msg)
  with assms have "s' = projectError img msg s"
    by (auto simp: processProjectImage_def Let_def)
  then show ?thesis using onlyWrites_refl by blast
next
  case (Inr h)
  show ?thesis
  proof (cases "cachedFor s (cacheKeyOf p img) h (outputDirOf p img)")
    case (Some c)
    with assms Inr have "s' = s \<or> (\<exists>msg. s' = projectError img msg s)"
      by (auto simp: processProjectImage_def Let_def split: sum.splits)
    then show ?thesis using onlyWrites_refl by blast
  next
    case None
    obtain r s1 where pi: "processImage env (inputPathOf p img) (outputDirOf p img) s = (r, s1)"
      by (cases "processImage env (inputPathOf p img) (outputDirOf p img) s")
    from assms Inr None pi
    have "(\<exists>msg. s' = projectError img msg s1)
            \<or> (\<exists>e. s' = s1\<lparr>imageCache := (imageCache s1)(cacheKeyOf p img \<mapsto> e),
                              imageCacheUpdated := True\<rparr>)"
      by (auto simp: processProjectImage_def Let_def split: sum.splits)
    with processImage_onlyWrites [OF pi] show ?thesis by blast
  qed
qed

lemma processProjectImage_frame:
  assumes "processProjectImage env p img (s, a) = (s', a')"
  shows "fsys s \<subseteq> fsys s'"
    and "k \<noteq> cacheKeyOf p img \<Longrightarrow> imageCache s' k = imageCache s k"
    and "length (console s) \<le> length (console s')"
proof -
  from processProjectImage_state [OF assms] obtain s1 where
    o: "onlyWrites s s1" and
    c: "s' = s1 \<or> (\<exists>msg. s' = projectError img msg s1)
            \<or> (\<exists>e. s' = s1\<lparr>imageCache := (imageCache s1)(cacheKeyOf p img \<mapsto> e),
                              imageCacheUpdated := True\<rparr>)"
    by blast
  from o c show "fsys s \<subseteq> fsys s'"
    by (auto simp: onlyWrites_def projectError_def)
  from o c show "k \<noteq> cacheKeyOf p img \<Longrightarrow> imageCache s' k = imageCache s k"
    by (auto simp: onlyWrites_def projectError_def)
  from o c show "length (console s) \<le> length (console s')"
    by (auto simp: onlyWrites_def projectError_def)
qed

lemma processProjectImage_defined:
  assumes "processProjectImage env p img (s, a) = (s', a')" and "imageData a (slug p) \<noteq> None"
  shows "imageData a' (slug p) \<noteq> None"
  using assms
  by (auto simp: processProjectImage_def Let_def setImage_def
           split: sum.splits option.splits prod.splits)

lemma fold_processProjectImage_frame:
  "fold (processProjectImage env p) imgs (s, a) = (s', a') \<Longrightarrow>
     fsys s \<subseteq> fsys s'
     \<and> (\<forall>k. k \<notin> cacheKeyOf p ` set imgs \<longrightarrow> imageCache s' k = imageCache s k)
     \<and> length (console s) \<le> length (console s')
     \<and> (imageData a (slug p) \<noteq> None \<longrightarrow> imageData a' (slug p) \<noteq> None)"
proof (induction imgs arbitrary: s a)
  case Nil
  then show ?case by simp
next
  case (Cons x xs)
  obtain s1 a1 where st: "processProjectImage env p x (s, a) = (s1, a1)"
    by (cases "processProjectImage env p x (s, a)")
  with Cons.prems have r: "fold (processProjectImage env p) xs (s1, a1) = (s', a')" by simp
  note f = processProjectImage_frame [OF st] processProjectImage_defined [OF st]
  note i = Cons.IH [OF r]
  show ?case
  proof (intro conjI allI impI)
    show "fsys s \<subseteq> fsys s'" using f(1) i by blast
    show "length (console s) \<le> length (console s')" using f(3) i by linarith
    show "imageData a' (slug p) \<noteq> None" if "imageData a (slug p) \<noteq> None"
      using f(4) [OF that] i by blast
    fix k assume "k \<notin> cacheKeyOf p ` set (x # xs)"
    then have "k \<noteq> cacheKeyOf p x" "k \<notin> cacheKeyOf p ` set xs" by auto
    with f(2) i show "imageCache s' k = imageCache s k" by simp
  qed
qed

lemma fold_checkDuplicate_imageData:
  "imageData (fold (checkDuplicate p) imgs a) = imageData a"
  by (induction imgs arbitrary: a) (auto simp: checkDuplicate_def split: option.splits)

lemma processProject_unfold:
  "hasImages p \<Longrightarrow> processProject env p (s, a) =
     fold (processProjectImage env p) (images p)
       (s, fold (checkDuplicate p) (images p)
             (a\<lparr>imageData := (imageData a)(slug p \<mapsto> Map.empty),
                projectProcessed := 0, projectSkipped := 0\<rparr>))"
  by (simp add: processProject_def)

lemma processProject_frame:
  assumes "processProject env p (s, a) = (s', a')"
  shows "fsys s \<subseteq> fsys s'"
    and "k \<notin> set (keysOf p) \<Longrightarrow> imageCache s' k = imageCache s k"
    and "length (console s) \<le> length (console s')"
proof -
  have "fsys s \<subseteq> fsys s'
     \<and> (k \<notin> set (keysOf p) \<longrightarrow> imageCache s' k = imageCache s k)
     \<and> length (console s) \<le> length (console s')"
  proof (cases "hasImages p")
    case False
    with assms have "s' = s" by (simp add: processProject_def)
    then show ?thesis by simp
  next
    case True
    let ?a0 = "fold (checkDuplicate p) (images p)
               (a\<lparr>imageData := (imageData a)(slug p \<mapsto> Map.empty),
                  projectProcessed := 0, projectSkipped := 0\<rparr>)"
    from assms True have f: "fold (processProjectImage env p) (images p) (s, ?a0) = (s', a')"
      by (simp add: processProject_unfold)
    from fold_processProjectImage_frame [OF f] show ?thesis
      by (simp add: keysOf_def)
  qed
  then show "fsys s \<subseteq> fsys s'"
    and "k \<notin> set (keysOf p) \<Longrightarrow> imageCache s' k = imageCache s k"
    and "length (console s) \<le> length (console s')"
    by simp_all
qed

lemma fold_processProject_frame:
  "fold (processProject env) ps (s, a) = (s', a') \<Longrightarrow>
     fsys s \<subseteq> fsys s'
     \<and> (\<forall>k. k \<notin> set (allKeys ps) \<longrightarrow> imageCache s' k = imageCache s k)
     \<and> length (console s) \<le> length (console s')"
proof (induction ps arbitrary: s a)
  case Nil
  then show ?case by simp
next
  case (Cons x xs)
  obtain s1 a1 where st: "processProject env x (s, a) = (s1, a1)"
    by (cases "processProject env x (s, a)")
  with Cons.prems have r: "fold (processProject env) xs (s1, a1) = (s', a')" by simp
  note f = processProject_frame [OF st]
  note i = Cons.IH [OF r]
  show ?case
  proof (intro conjI allI impI)
    show "fsys s \<subseteq> fsys s'" using f(1) i by blast
    show "length (console s) \<le> length (console s')" using f(3) i by linarith
    fix k assume k: "k \<notin> set (allKeys (x # xs))"
    show "imageCache s' k = imageCache s k"
    proof (cases "hasImages x")
      case True
      with k have "k \<notin> set (keysOf x)" "k \<notin> set (allKeys xs)" by (auto simp: allKeys_def)
      with f(2) i show ?thesis by simp
    next
      case False
      with st have "s1 = s" by (simp add: processProject_def)
      moreover from False k have "k \<notin> set (allKeys xs)" by (auto simp: allKeys_def)
      ultimately show ?thesis using i by simp
    qed
  qed
qed

lemma deriveHomepageImage_frame:
  assumes "deriveHomepageImage env num i out s = (r, s1)"
  shows "imageCache s1 = imageCache s" "fsys s \<subseteq> fsys s1" "console s1 = console s"
  using deriveHomepageImage_onlyWrites [OF assms] by (simp_all add: onlyWrites_def)

lemma homepageKey_inj: "homepageKey f = homepageKey g \<longleftrightarrow> f = g"
  by (simp add: homepageKey_def)

lemma processHomepageImage_state:
  assumes "processHomepageImage env f (s, a) = (s', a')"
  shows "\<exists>s1. onlyWrites s s1 \<and>
           (s' = s1 \<or> (\<exists>msg. s' = homepageError f msg s1)
            \<or> (\<exists>e. s' = s1\<lparr>imageCache := (imageCache s1)(homepageKey f \<mapsto> e),
                              imageCacheUpdated := True\<rparr>))"
proof (cases "getFileHash env (homepageInput f)")
  case (Inl msg)
  with assms have "s' = homepageError f msg s"
    by (auto simp: processHomepageImage_def)
  then show ?thesis using onlyWrites_refl by blast
next
  case (Inr h)
  show ?thesis
  proof (cases "cachedFor s (homepageKey f) h (homepageOutputDir f)")
    case (Some c)
    with assms Inr have "s' = s" by (auto simp: processHomepageImage_def)
    then show ?thesis using onlyWrites_refl by blast
  next
    case None
    obtain r s1 where pi: "deriveHomepageImage env (parseInt f) (homepageInput f)
                             (homepageOutputDir f) s = (r, s1)"
      by (cases "deriveHomepageImage env (parseInt f) (homepageInput f) (homepageOutputDir f) s")
    from assms Inr None pi
    have "(\<exists>msg. s' = homepageError f msg s1)
            \<or> (\<exists>e. s' = s1\<lparr>imageCache := (imageCache s1)(homepageKey f \<mapsto> e),
                              imageCacheUpdated := True\<rparr>)"
      by (auto simp: processHomepageImage_def split: sum.splits)
    with deriveHomepageImage_onlyWrites [OF pi] show ?thesis by blast
  qed
qed

lemma processHomepageImage_frame:
  assumes "processHomepageImage env f (s, a) = (s', a')"
  shows "fsys s \<subseteq> fsys s'"
    and "k \<noteq> homepageKey f \<Longrightarrow> imageCache s' k = imageCache s k"
    and "length (console s) \<le> length (console s')"
proof -
  from processHomepageImage_state [OF assms] obtain s1 where
    o: "onlyWrites s s1" and
    c: "s' = s1 \<or> (\<exists>msg. s' = homepageError f msg s1)
            \<or> (\<exists>e. s' = s1\<lparr>imageCache := (imageCache s1)(homepageKey f \<mapsto> e),
                              imageCacheUpdated := True\<rparr>)"
    by blast
  from o c show "fsys s \<subseteq> fsys s'"
    by (auto simp: onlyWrites_def homepageError_def)
  from o c show "k \<noteq> homepageKey f \<Longrightarrow> imageCache s' k = imageCache s k"
    by (auto simp: onlyWrites_def homepageError_def)
  from o c show "length (console s) \<le> length (console s')"
    by (auto simp: onlyWrites_def homepageError_def)
qed

lemma fold_processHomepageImage_frame:
  "fold (processHomepageImage env) fs (s, a) = (s', a') \<Longrightarrow>
     fsys s \<subseteq> fsys s'
     \<and> (\<forall>k. k \<notin> homepageKey ` set fs \<longrightarrow> imageCache s' k = imageCache s k)
     \<and> length (console s) \<le> length (console s')"
proof (induction fs arbitrary: s a)
  case Nil
  then show ?case by simp
next
  case (Cons x xs)
  obtain s1 a1 where st: "processHomepageImage env x (s, a) = (s1, a1)"
    by (cases "processHomepageImage env x (s, a)")
  with Cons.prems have r: "fold (processHomepageImage env) xs (s1, a1) = (s', a')" by simp
  note f = processHomepageImage_frame [OF st]
  note i = Cons.IH [OF r]
  show ?case
  proof (intro conjI allI impI)
    show "fsys s \<subseteq> fsys s'" using f(1) i by blast
    show "length (console s) \<le> length (console s')" using f(3) i by linarith
    fix k assume "k \<notin> homepageKey ` set (x # xs)"
    then have "k \<noteq> homepageKey x" "k \<notin> homepageKey ` set xs" by auto
    with f(2) i show "imageCache s' k = imageCache s k" by simp
  qed
qed

lemma processImages_fold:
  "processImages env ps s = (a, s') \<longleftrightarrow> fold (processProject env) ps (s, newRun) = (s', a)"
  by (auto simp: processImages_def split: prod.splits)

lemma below_self: "below d d"
  by (simp add: below_def)

lemma below_file: "below d (d @ ''/'' @ x)"
  by (simp add: below_def)

lemma createsIn_refl: "createsIn d s s"
  by (simp add: createsIn_def)

lemma createsIn_trans: "createsIn d s s1 \<Longrightarrow> createsIn d s1 s2 \<Longrightarrow> createsIn d s s2"
  by (auto simp: createsIn_def)

lemma ensureDir_createsIn: "ensureDir env d s = (res, s') \<Longrightarrow> createsIn d s s'"
  by (auto simp: ensureDir_def mkdirp_def createsIn_def touches_def below_def split: option.splits)

lemma toFile_createsIn:
  "toFile env i w n f q (d @ ''/'' @ x) s = (res, s') \<Longrightarrow> createsIn d s s'"
  by (auto simp: toFile_def wrote_def createsIn_def touches_def below_def split: option.splits)

lemma copyFile_createsIn:
  "copyFile env i (d @ ''/'' @ x) s = (res, s') \<Longrightarrow> createsIn d s s'"
  by (auto simp: copyFile_def wrote_def createsIn_def touches_def below_def split: option.splits)

lemma andThen_createsIn:
  assumes "andThen m f = (res, s')"
    and "\<And>r1 s1. m = (r1, s1) \<Longrightarrow> createsIn d s s1"
    and "\<And>x s1 r2 s2. f x s1 = (r2, s2) \<Longrightarrow> createsIn d s1 s2"
  shows "createsIn d s s'"
proof (cases m)
  case (Pair r1 s1)
  show ?thesis
  proof (cases r1)
    case (Inl e)
    with Pair assms(1) have "s' = s1" by (simp add: andThen_def)
    with assms(2) [OF Pair] show ?thesis by simp
  next
    case (Inr x)
    with Pair assms(1) have "f x s1 = (res, s')" by (simp add: andThen_def)
    from createsIn_trans [OF assms(2) [OF Pair] assms(3) [OF this]] show ?thesis .
  qed
qed

lemma generateSizes_createsIn:
  "generateSizes env i d mw ws acc s = (res, s') \<Longrightarrow> createsIn d s s'"
proof (induction ws arbitrary: acc s res s')
  case Nil
  then show ?case by (simp add: createsIn_refl)
next
  case (Cons w ws)
  show ?case
  proof (cases "w \<le> mw")
    case False
    with Cons show ?thesis by simp
  next
    case True
    with Cons.prems show ?thesis
      apply simp
      apply (erule andThen_createsIn, erule toFile_createsIn [where x = "showNat w @ ''.avif''", simplified])
      apply (erule andThen_createsIn, erule toFile_createsIn [where x = "showNat w @ ''.webp''", simplified])
      apply (erule andThen_createsIn, erule toFile_createsIn [where x = "showNat w @ ''.jpg''", simplified])
      apply (erule Cons.IH)
      done
  qed
qed

lemma srcsetLoop_createsIn:
  "srcsetLoop env i d url n wq jq mw ws acc s = (res, s') \<Longrightarrow> createsIn d s s'"
proof (induction ws arbitrary: acc s res s')
  case Nil
  then show ?case by (simp add: createsIn_refl)
next
  case (Cons w ws)
  show ?case
  proof (cases "w \<le> mw")
    case False
    with Cons show ?thesis by simp
  next
    case True
    with Cons.prems show ?thesis
      apply simp
      apply (erule andThen_createsIn, erule toFile_createsIn [where x = "showNat w @ ''.avif''", simplified])
      apply (erule andThen_createsIn, erule toFile_createsIn [where x = "showNat w @ ''.webp''", simplified])
      apply (erule andThen_createsIn, erule toFile_createsIn [where x = "showNat w @ ''.jpg''", simplified])
      apply (erule Cons.IH)
      done
  qed
qed

lemma processImage_createsIn:
  assumes "processImage env i d s = (res, s')" shows "createsIn d s s'"
proof (cases "sharpMetadata env i")
  case (Inl e)
  with assms show ?thesis by (simp add: processImage_def createsIn_refl)
next
  case (Inr m)
  obtain mw mh where m: "m = (mw, mh)" by (cases m)
  from assms Inr m show ?thesis
    apply (simp add: processImage_def)
    apply (erule andThen_createsIn, erule ensureDir_createsIn)
    apply (erule andThen_createsIn, erule generateSizes_createsIn)
    apply (cases "sharpPlaceholder env i")
     apply (simp add: createsIn_refl)
    apply simp
    apply (erule andThen_createsIn, erule copyFile_createsIn [where x = "''original.jpg''", simplified])
    apply (simp add: createsIn_refl)
    done
qed

lemma deriveHomepageImage_createsIn:
  assumes "deriveHomepageImage env num i d s = (res, s')" shows "createsIn d s s'"
proof (cases "sharpMetadata env i")
  case (Inl e)
  with assms show ?thesis by (simp add: deriveHomepageImage_def createsIn_refl)
next
  case (Inr m)
  obtain mw mh where m: "m = (mw, mh)" by (cases m)
  from assms Inr m show ?thesis
    apply (simp add: deriveHomepageImage_def)
    apply (erule andThen_createsIn, erule ensureDir_createsIn)
    apply (erule andThen_createsIn, erule srcsetLoop_createsIn)
    apply (cases "sharpPlaceholder env i")
     apply (simp add: createsIn_refl)
    apply (simp add: createsIn_refl)
    done
qed

lemma processProjectImage_createsIn:
  assumes "processProjectImage env p img (s, a) = (s', a')"
  shows "createsIn (outputDirOf p img) s s'"
proof (cases "getFileHash env (inputPathOf p img)")
  case (Inl msg)
  with assms have "s' = projectError img msg s"
    by (auto simp: processProjectImage_def Let_def)
  then show ?thesis by (simp add: createsIn_def projectError_def)
next
  case (Inr h)
  show ?thesis
  proof (cases "cachedFor s (cacheKeyOf p img) h (outputDirOf p img)")
    case (Some c)
    with assms Inr have "fsys s' = fsys s"
      by (auto simp: processProjectImage_def Let_def projectError_def split: sum.splits)
    then show ?thesis by (simp add: createsIn_def)
  next
    case None
    obtain r s1 where pi: "processImage env (inputPathOf p img) (outputDirOf p img) s = (r, s1)"
      by (cases "processImage env (inputPathOf p img) (outputDirOf p img) s")
    from assms Inr None pi have "fsys s' = fsys s1"
      by (auto simp: processProjectImage_def Let_def projectError_def split: sum.splits)
    with processImage_createsIn [OF pi] show ?thesis by (simp add: createsIn_def)
  qed
qed

lemma processHomepageImage_createsIn:
  assumes "processHomepageImage env f (s, a) = (s', a')"
  shows "createsIn (homepageOutputDir f) s s'"
proof (cases "getFileHash env (homepageInput f)")
  case (Inl msg)
  with assms have "s' = homepageError f msg s"
    by (auto simp: processHomepageImage_def)
  then show ?thesis by (simp add: createsIn_def homepageError_def)
next
  case (Inr h)
  show ?thesis
  proof (cases "cachedFor s (homepageKey f) h (homepageOutputDir f)")
    case (Some c)
    with assms Inr have "fsys s' = fsys s"
      by (auto simp: processHomepageImage_def)
    then show ?thesis by (simp add: createsIn_def)
  next
    case None
    obtain r s1 where pi: "deriveHomepageImage env (parseInt f) (homepageInput f)
                             (homepageOutputDir f) s = (r, s1)"
      by (cases "deriveHomepageImage env (parseInt f) (homepageInput f) (homepageOutputDir f) s")
    from assms Inr None pi have "fsys s' = fsys s1"
      by (auto simp: processHomepageImage_def homepageError_def split: sum.splits)
    with deriveHomepageImage_createsIn [OF pi] show ?thesis by (simp add: createsIn_def)
  qed
qed

lemma fold_processProjectImage_creates:
  "fold (processProjectImage env p) imgs (s, a) = (s', a') \<Longrightarrow> x \<in> fsys s' \<Longrightarrow>
     x \<in> fsys s \<or> (\<exists>j \<in> set imgs. touches (outputDirOf p j) x)"
proof (induction imgs arbitrary: s a)
  case Nil
  then show ?case by simp
next
  case (Cons img imgs)
  obtain s1 a1 where st: "processProjectImage env p img (s, a) = (s1, a1)"
    by (cases "processProjectImage env p img (s, a)")
  with Cons.prems have "fold (processProjectImage env p) imgs (s1, a1) = (s', a')" by simp
  from Cons.IH [OF this Cons.prems(2)]
  have "x \<in> fsys s1 \<or> (\<exists>j \<in> set imgs. touches (outputDirOf p j) x)" .
  moreover from processProjectImage_createsIn [OF st]
  have "x \<in> fsys s1 \<Longrightarrow> x \<in> fsys s \<or> touches (outputDirOf p img) x"
    by (simp add: createsIn_def)
  ultimately show ?case by auto
qed

lemma fold_processHomepageImage_creates:
  "fold (processHomepageImage env) fs (s, a) = (s', a') \<Longrightarrow> x \<in> fsys s' \<Longrightarrow>
     x \<in> fsys s \<or> (\<exists>g \<in> set fs. touches (homepageOutputDir g) x)"
proof (induction fs arbitrary: s a)
  case Nil
  then show ?case by simp
next
  case (Cons f fs)
  obtain s1 a1 where st: "processHomepageImage env f (s, a) = (s1, a1)"
    by (cases "processHomepageImage env f (s, a)")
  with Cons.prems have "fold (processHomepageImage env) fs (s1, a1) = (s', a')" by simp
  from Cons.IH [OF this Cons.prems(2)]
  have "x \<in> fsys s1 \<or> (\<exists>g \<in> set fs. touches (homepageOutputDir g) x)" .
  moreover from processHomepageImage_createsIn [OF st]
  have "x \<in> fsys s1 \<Longrightarrow> x \<in> fsys s \<or> touches (homepageOutputDir f) x"
    by (simp add: createsIn_def)
  ultimately show ?case by auto
qed

lemma processProject_creates:
  assumes "processProject env p (s, a) = (s', a')" and "x \<in> fsys s'"
  shows "x \<in> fsys s \<or> (hasImages p \<and> (\<exists>j \<in> set (images p). touches (outputDirOf p j) x))"
proof (cases "hasImages p")
  case False
  with assms show ?thesis by (simp add: processProject_def)
next
  case True
  from assms(1) have "fold (processProjectImage env p) (images p)
        (s, fold (checkDuplicate p) (images p)
              (a\<lparr>imageData := (imageData a)(slug p \<mapsto> Map.empty),
                 projectProcessed := 0, projectSkipped := 0\<rparr>)) = (s', a')"
    by (simp add: processProject_unfold [OF True])
  from fold_processProjectImage_creates [OF this assms(2)] True show ?thesis by simp
qed

lemma fold_processProject_creates:
  "fold (processProject env) ps (s, a) = (s', a') \<Longrightarrow> x \<in> fsys s' \<Longrightarrow>
     x \<in> fsys s \<or> (\<exists>q \<in> set ps. hasImages q \<and> (\<exists>j \<in> set (images q). touches (outputDirOf q j) x))"
proof (induction ps arbitrary: s a)
  case Nil
  then show ?case by simp
next
  case (Cons p ps)
  obtain s1 a1 where st: "processProject env p (s, a) = (s1, a1)"
    by (cases "processProject env p (s, a)")
  with Cons.prems have "fold (processProject env) ps (s1, a1) = (s', a')" by simp
  from Cons.IH [OF this Cons.prems(2)]
  have "x \<in> fsys s1 \<or> (\<exists>q \<in> set ps. hasImages q \<and> (\<exists>j \<in> set (images q). touches (outputDirOf q j) x))" .
  moreover from processProject_creates [OF st]
  have "x \<in> fsys s1 \<Longrightarrow>
     x \<in> fsys s \<or> (hasImages p \<and> (\<exists>j \<in> set (images p). touches (outputDirOf p j) x))" .
  ultimately show ?case by auto
qed

text \<open>The state that a loop has reached.\<close>

lemma processImages_reached:
  assumes "projects = before @ project # after" and "hasImages project"
    and "images project = pre @ img # post"
  shows "processImages env projects s =
           (case fold (processProject env) after
                   (fold (processProjectImage env project) post
                      (processProjectImage env project img (reached env before project pre s))) of
              (s1, a) \<Rightarrow> (a, s1))"
proof -
  obtain s0 a0 where b: "fold (processProject env) before (s, newRun) = (s0, a0)"
    by (cases "fold (processProject env) before (s, newRun)")
  show ?thesis
    by (simp add: processImages_def assms(1) b processProject_unfold [OF assms(2)] assms(3)
                  reached_def)
qed

lemma reached_facts:
  assumes "reached env before project pre s = (sk, ak)"
  shows "imageData ak (slug project) \<noteq> None"
    and "fsys s \<subseteq> fsys sk"
    and "k \<notin> set (allKeys before) \<Longrightarrow> k \<notin> cacheKeyOf project ` set pre
           \<Longrightarrow> imageCache sk k = imageCache s k"
    and "x \<in> fsys sk \<Longrightarrow> x \<in> fsys s
           \<or> (\<exists>q \<in> set before. hasImages q \<and> (\<exists>j \<in> set (images q). touches (outputDirOf q j) x))
           \<or> (\<exists>j \<in> set pre. touches (outputDirOf project j) x)"
proof -
  obtain s0 a0 where b: "fold (processProject env) before (s, newRun) = (s0, a0)"
    by (cases "fold (processProject env) before (s, newRun)")
  let ?a = "fold (checkDuplicate project) (images project)
              (a0\<lparr>imageData := (imageData a0)(slug project \<mapsto> Map.empty),
                  projectProcessed := 0, projectSkipped := 0\<rparr>)"
  from assms b have f: "fold (processProjectImage env project) pre (s0, ?a) = (sk, ak)"
    by (simp add: reached_def)
  have d: "imageData ?a (slug project) \<noteq> None"
    by (simp add: fold_checkDuplicate_imageData)
  note fb = fold_processProject_frame [OF b]
  note ff = fold_processProjectImage_frame [OF f]
  from ff d show "imageData ak (slug project) \<noteq> None" by blast
  from fb ff show "fsys s \<subseteq> fsys sk" by blast
  show "imageCache sk k = imageCache s k"
    if "k \<notin> set (allKeys before)" "k \<notin> cacheKeyOf project ` set pre"
    using that fb ff by simp
  show "x \<in> fsys s
           \<or> (\<exists>q \<in> set before. hasImages q \<and> (\<exists>j \<in> set (images q). touches (outputDirOf q j) x))
           \<or> (\<exists>j \<in> set pre. touches (outputDirOf project j) x)" if "x \<in> fsys sk"
    using fold_processProjectImage_creates [OF f that] fold_processProject_creates [OF b]
    by blast
qed

lemma reachedHome_facts:
  assumes "reachedHome env pre s = (sk, bk)"
  shows "fsys s \<subseteq> fsys sk"
    and "k \<notin> homepageKey ` set pre \<Longrightarrow> imageCache sk k = imageCache s k"
    and "x \<in> fsys sk \<Longrightarrow> x \<in> fsys s \<or> (\<exists>g \<in> set pre. touches (homepageOutputDir g) x)"
proof -
  from assms have f: "fold (processHomepageImage env) pre (s, newHrun) = (sk, bk)"
    by (simp add: reachedHome_def)
  note ff = fold_processHomepageImage_frame [OF f]
  from ff show "fsys s \<subseteq> fsys sk" by blast
  show "imageCache sk k = imageCache s k" if "k \<notin> homepageKey ` set pre"
    using that ff by simp
  show "x \<in> fsys s \<or> (\<exists>g \<in> set pre. touches (homepageOutputDir g) x)" if "x \<in> fsys sk"
    using fold_processHomepageImage_creates [OF f that] .
qed









text \<open>A turn whose condition for reusing the cache fails runs the derivation.\<close>

lemma processProjectImage_failed:
  assumes "getFileHash env (inputPathOf p img) = Inr h"
    and "cachedFor s (cacheKeyOf p img) h (outputDirOf p img) = None"
    and "processImage env (inputPathOf p img) (outputDirOf p img) s = (Inl msg, s1)"
  shows "fst (processProjectImage env p img (s, a)) = projectError img msg s1"
    and "imageData (snd (processProjectImage env p img (s, a))) = imageData a"
    and "totalSkipped (snd (processProjectImage env p img (s, a))) = totalSkipped a"
    and "totalProcessed (snd (processProjectImage env p img (s, a))) = totalProcessed a"
  using assms by (simp_all add: processProjectImage_def Let_def)

lemma processProjectImage_derived:
  assumes "getFileHash env (inputPathOf p img) = Inr h"
    and "cachedFor s (cacheKeyOf p img) h (outputDirOf p img) = None"
    and "processImage env (inputPathOf p img) (outputDirOf p img) s = (Inr r, s1)"
    and "imageData a (slug p) = Some m"
  shows "fst (processProjectImage env p img (s, a))
           = s1\<lparr>imageCache := (imageCache s1)(cacheKeyOf p img \<mapsto> \<lparr>hash = h, data = Results r\<rparr>),
                imageCacheUpdated := True\<rparr>"
    and "imageData (snd (processProjectImage env p img (s, a)))
           = (imageData a)(slug p \<mapsto>
               m(img_index img \<mapsto> \<lparr>entry_data = Results r, entry_size = img_size img\<rparr>))"
    and "totalSkipped (snd (processProjectImage env p img (s, a))) = totalSkipped a"
    and "totalProcessed (snd (processProjectImage env p img (s, a))) = totalProcessed a + 1"
  using assms by (simp_all add: processProjectImage_def Let_def setImage_def)

lemma processHomepageImage_failed:
  assumes "getFileHash env (homepageInput f) = Inr h"
    and "cachedFor s (homepageKey f) h (homepageOutputDir f) = None"
    and "deriveHomepageImage env (parseInt f) (homepageInput f) (homepageOutputDir f) s = (Inl msg, s1)"
  shows "processHomepageImage env f (s, b) = (homepageError f msg s1, b)"
  using assms by (simp add: processHomepageImage_def)

lemma processHomepageImage_derived:
  assumes "getFileHash env (homepageInput f) = Inr h"
    and "cachedFor s (homepageKey f) h (homepageOutputDir f) = None"
    and "deriveHomepageImage env (parseInt f) (homepageInput f) (homepageOutputDir f) s = (Inr r, s1)"
  shows "processHomepageImage env f (s, b)
           = (s1\<lparr>imageCache := (imageCache s1)(homepageKey f \<mapsto> \<lparr>hash = h, data = Homepage r\<rparr>),
                 imageCacheUpdated := True\<rparr>,
              b\<lparr>homepageImages := (homepageImages b)(parseInt f \<mapsto> Homepage r),
                processedCount := processedCount b + 1\<rparr>)"
  using assms by (simp add: processHomepageImage_def)


lemma cachedFor_other_hash:
  "\<forall>c. imageCache s k = Some c \<longrightarrow> hash c \<noteq> h \<Longrightarrow> cachedFor s k h d = None"
  by (simp add: cachedFor_def split: option.splits)



lemma processHomepageImages_cache:
  assumes "pathExists s homepageDir" and "readdir env homepageDir = Inr files"
  shows "imageCache (snd (processHomepageImages env s))
           = imageCache (fst (fold (processHomepageImage env) (numberedImages files) (s, newHrun)))"
    and "imageCacheUpdated (snd (processHomepageImages env s))
           = imageCacheUpdated (fst (fold (processHomepageImage env) (numberedImages files) (s, newHrun)))"
    and "fsys (fst (fold (processHomepageImage env) (numberedImages files) (s, newHrun)))
           \<subseteq> fsys (snd (processHomepageImages env s))"
    and "console (snd (processHomepageImages env s))
           = console (fst (fold (processHomepageImage env) (numberedImages files) (s, newHrun)))"
  using assms
  by (auto simp: processHomepageImages_def wrote_def split: prod.splits option.splits)

lemma outcome_split: "fst m = r \<Longrightarrow> m = (r, snd m)"
  by (cases m) simp

subsection \<open>\<open>needsProcessing\<close> and the output directory\<close>

text \<open>
  C1. \<open>needsProcessing\<close> returns true exactly when the cache holds no entry for the key
  or the entry holds another hash; its result does not depend on \<open>outputDir\<close>. The third
  check is the one that the orchestrators write out themselves: they derive an image
  exactly when \<open>needsProcessing\<close> would return true or the output directory is missing.
\<close>

theorem needsProcessing_two_checks:
  "needsProcessing s cacheKey fileHash outputDir
     = (imageCache s cacheKey = None \<or> (\<exists>c. imageCache s cacheKey = Some c \<and> hash c \<noteq> fileHash))
   \<and> needsProcessing s cacheKey fileHash outputDir = needsProcessing s cacheKey fileHash otherDir
   \<and> (cachedFor s cacheKey fileHash outputDir = None)
       = (needsProcessing s cacheKey fileHash outputDir \<or> \<not> pathExists s outputDir)"
  by (auto simp: needsProcessing_def cachedFor_def split: option.splits)

theorem needsProcessing_two_checks_witness:
  "\<not> pathExists staleState ''dist/images/p/01''
   \<and> cachedFor staleState ''p/a.jpg'' ''projects/p/original/a.jpg'' ''dist/images/p/01'' = None
   \<and> needsProcessing hitState ''p/a.jpg'' ''projects/p/original/a.jpg'' ''dist/images/p/01'' = False
   \<and> cachedFor hitState ''p/a.jpg'' ''projects/p/original/a.jpg'' ''dist/images/p/01''
       = Some \<lparr>hash = ''projects/p/original/a.jpg'', data = staleData\<rparr>
   \<and> needsProcessing emptyState ''p/a.jpg'' ''projects/p/original/a.jpg'' ''dist/images/p/01''"
proof -
  have m: "\<not> pathExists staleState ''dist/images/p/01''"
    by (simp add: pathExists_def staleState_def emptyState_def)
  note t = needsProcessing_two_checks
  from t [of staleState "''p/a.jpg''" "''projects/p/original/a.jpg''" "''dist/images/p/01''",
          THEN conjunct2, THEN conjunct2] m
  have c: "cachedFor staleState ''p/a.jpg'' ''projects/p/original/a.jpg'' ''dist/images/p/01'' = None"
    by simp
  from t [of hitState "''p/a.jpg''" "''projects/p/original/a.jpg''" "''dist/images/p/01''",
          THEN conjunct1]
  have n: "needsProcessing hitState ''p/a.jpg'' ''projects/p/original/a.jpg'' ''dist/images/p/01''
             = False"
    by (simp add: hitState_def staleState_def emptyState_def)
  have h: "cachedFor hitState ''p/a.jpg'' ''projects/p/original/a.jpg'' ''dist/images/p/01''
       = Some \<lparr>hash = ''projects/p/original/a.jpg'', data = staleData\<rparr>"
    by (simp add: cachedFor_def pathExists_def hitState_def staleState_def emptyState_def)
  from t [of emptyState "''p/a.jpg''" "''projects/p/original/a.jpg''" "''dist/images/p/01''",
          THEN conjunct1]
  have e: "needsProcessing emptyState ''p/a.jpg'' ''projects/p/original/a.jpg'' ''dist/images/p/01''"
    by (simp add: emptyState_def)
  from m c n h e show ?thesis by (intro conjI)
qed

text \<open>
  C1 as stated fails for the function: here the cache holds the entry of \<open>p/a.jpg\<close> with
  the current hash, \<open>dist/images/p/01\<close> does not exist, and \<open>needsProcessing\<close> returns
  false.
\<close>

theorem needsProcessing_missing_outputDir:
  "imageCache staleState ''p/a.jpg''
      = Some \<lparr>hash = ''projects/p/original/a.jpg'', data = staleData\<rparr>
   \<and> \<not> pathExists staleState ''dist/images/p/01''
   \<and> needsProcessing staleState ''p/a.jpg'' ''projects/p/original/a.jpg'' ''dist/images/p/01'' = False"
  by (simp add: needsProcessing_def pathExists_def staleState_def emptyState_def)

subsection \<open>A failed derivation leaves the cache alone\<close>

text \<open>
  C10. When the derivation of a project image or of a homepage image throws, the turn of
  the loop leaves \<open>imageCache\<close> and \<open>imageCacheUpdated\<close> as they were and records no data
  for the image. If the entry of the key did not hold the current hash, every later state
  with the same entry for the key fails the condition for reusing the cache; if it held
  the current hash and the failed attempt has created the output directory, the condition
  holds and the older entry is reused. In a run in which no other image has the same
  cache key, the entry of the key is at the end of the run what it was at its start; and
  when it did not hold the current hash, a next run that starts with this entry reaches
  the image with the condition failing and runs the derivation again, whatever the
  library does on that run.
\<close>

theorem failed_derivation_keeps_cache:
  "(\<forall>h msg s1. getFileHash env (inputPathOf project img) = Inr h
        \<and> cachedFor s (cacheKeyOf project img) h (outputDirOf project img) = None
        \<and> processImage env (inputPathOf project img) (outputDirOf project img) s = (Inl msg, s1)
      \<longrightarrow> imageCache (fst (processProjectImage env project img (s, a))) = imageCache s
        \<and> imageCacheUpdated (fst (processProjectImage env project img (s, a))) = imageCacheUpdated s
        \<and> imageData (snd (processProjectImage env project img (s, a))) = imageData a
        \<and> ((\<forall>c. imageCache s (cacheKeyOf project img) = Some c \<longrightarrow> hash c \<noteq> h)
             \<longrightarrow> (\<forall>t. imageCache t (cacheKeyOf project img)
                        = imageCache (fst (processProjectImage env project img (s, a)))
                            (cacheKeyOf project img)
                      \<longrightarrow> cachedFor t (cacheKeyOf project img) h (outputDirOf project img) = None))
        \<and> (\<forall>c. imageCache s (cacheKeyOf project img) = Some c \<and> hash c = h
                \<and> pathExists s1 (outputDirOf project img)
              \<longrightarrow> cachedFor (fst (processProjectImage env project img (s, a)))
                    (cacheKeyOf project img) h (outputDirOf project img) = Some c))
   \<and> (\<forall>h msg s1. getFileHash env (homepageInput f) = Inr h
        \<and> cachedFor s (homepageKey f) h (homepageOutputDir f) = None
        \<and> deriveHomepageImage env (parseInt f) (homepageInput f) (homepageOutputDir f) s = (Inl msg, s1)
      \<longrightarrow> imageCache (fst (processHomepageImage env f (s, b))) = imageCache s
        \<and> imageCacheUpdated (fst (processHomepageImage env f (s, b))) = imageCacheUpdated s
        \<and> homepageImages (snd (processHomepageImage env f (s, b))) = homepageImages b
        \<and> ((\<forall>c. imageCache s (homepageKey f) = Some c \<longrightarrow> hash c \<noteq> h)
             \<longrightarrow> (\<forall>t. imageCache t (homepageKey f)
                        = imageCache (fst (processHomepageImage env f (s, b))) (homepageKey f)
                      \<longrightarrow> cachedFor t (homepageKey f) h (homepageOutputDir f) = None))
        \<and> (\<forall>c. imageCache s (homepageKey f) = Some c \<and> hash c = h
                \<and> pathExists s1 (homepageOutputDir f)
              \<longrightarrow> cachedFor (fst (processHomepageImage env f (s, b)))
                    (homepageKey f) h (homepageOutputDir f) = Some c))
   \<and> (\<forall>before after pre post sk ak h msg s1.
          projects = before @ project # after \<longrightarrow> hasImages project
        \<longrightarrow> images project = pre @ img # post
        \<longrightarrow> cacheKeyOf project img \<notin> set (allKeys before) \<union> set (allKeys after)
        \<longrightarrow> cacheKeyOf project img \<notin> cacheKeyOf project ` (set pre \<union> set post)
        \<longrightarrow> reached env before project pre s = (sk, ak)
        \<longrightarrow> getFileHash env (inputPathOf project img) = Inr h
        \<longrightarrow> cachedFor sk (cacheKeyOf project img) h (outputDirOf project img) = None
        \<longrightarrow> processImage env (inputPathOf project img) (outputDirOf project img) sk = (Inl msg, s1)
        \<longrightarrow> imageCache (snd (processImages env projects s)) (cacheKeyOf project img)
              = imageCache s (cacheKeyOf project img)
          \<and> (\<forall>env2 t tk bk.
                (\<forall>c. imageCache s (cacheKeyOf project img) = Some c \<longrightarrow> hash c \<noteq> h)
              \<and> imageCache t (cacheKeyOf project img)
                  = imageCache (snd (processImages env projects s)) (cacheKeyOf project img)
              \<and> getFileHash env2 (inputPathOf project img) = Inr h
              \<and> reached env2 before project pre t = (tk, bk)
              \<longrightarrow> cachedFor tk (cacheKeyOf project img) h (outputDirOf project img) = None
                \<and> (\<forall>msg2 s2. processImage env2 (inputPathOf project img) (outputDirOf project img) tk
                                = (Inl msg2, s2)
                      \<longrightarrow> fst (processProjectImage env2 project img (tk, bk))
                            = projectError img msg2 s2)
                \<and> (\<forall>r s2. processImage env2 (inputPathOf project img) (outputDirOf project img) tk
                                = (Inr r, s2)
                      \<longrightarrow> imageCache (fst (processProjectImage env2 project img (tk, bk)))
                              (cacheKeyOf project img) = Some \<lparr>hash = h, data = Results r\<rparr>
                        \<and> totalProcessed (snd (processProjectImage env2 project img (tk, bk)))
                            = totalProcessed bk + 1)))
   \<and> (\<forall>files pre post sk bk h msg s1.
          pathExists s homepageDir \<longrightarrow> readdir env homepageDir = Inr files
        \<longrightarrow> numberedImages files = pre @ f # post
        \<longrightarrow> f \<notin> set pre \<union> set post
        \<longrightarrow> reachedHome env pre s = (sk, bk)
        \<longrightarrow> getFileHash env (homepageInput f) = Inr h
        \<longrightarrow> cachedFor sk (homepageKey f) h (homepageOutputDir f) = None
        \<longrightarrow> deriveHomepageImage env (parseInt f) (homepageInput f) (homepageOutputDir f) sk
              = (Inl msg, s1)
        \<longrightarrow> imageCache (snd (processHomepageImages env s)) (homepageKey f)
              = imageCache s (homepageKey f)
          \<and> (\<forall>env2 t tk ck.
                (\<forall>c. imageCache s (homepageKey f) = Some c \<longrightarrow> hash c \<noteq> h)
              \<and> imageCache t (homepageKey f)
                  = imageCache (snd (processHomepageImages env s)) (homepageKey f)
              \<and> getFileHash env2 (homepageInput f) = Inr h
              \<and> reachedHome env2 pre t = (tk, ck)
              \<longrightarrow> cachedFor tk (homepageKey f) h (homepageOutputDir f) = None
                \<and> (\<forall>msg2 s2. deriveHomepageImage env2 (parseInt f) (homepageInput f)
                                  (homepageOutputDir f) tk = (Inl msg2, s2)
                      \<longrightarrow> processHomepageImage env2 f (tk, ck) = (homepageError f msg2 s2, ck))
                \<and> (\<forall>r s2. deriveHomepageImage env2 (parseInt f) (homepageInput f)
                                  (homepageOutputDir f) tk = (Inr r, s2)
                      \<longrightarrow> imageCache (fst (processHomepageImage env2 f (tk, ck))) (homepageKey f)
                              = Some \<lparr>hash = h, data = Homepage r\<rparr>
                        \<and> processedCount (snd (processHomepageImage env2 f (tk, ck)))
                            = processedCount ck + 1)))"
proof (intro conjI)
  show "\<forall>h msg s1. getFileHash env (inputPathOf project img) = Inr h
        \<and> cachedFor s (cacheKeyOf project img) h (outputDirOf project img) = None
        \<and> processImage env (inputPathOf project img) (outputDirOf project img) s = (Inl msg, s1)
      \<longrightarrow> imageCache (fst (processProjectImage env project img (s, a))) = imageCache s
        \<and> imageCacheUpdated (fst (processProjectImage env project img (s, a))) = imageCacheUpdated s
        \<and> imageData (snd (processProjectImage env project img (s, a))) = imageData a
        \<and> ((\<forall>c. imageCache s (cacheKeyOf project img) = Some c \<longrightarrow> hash c \<noteq> h)
             \<longrightarrow> (\<forall>t. imageCache t (cacheKeyOf project img)
                        = imageCache (fst (processProjectImage env project img (s, a)))
                            (cacheKeyOf project img)
                      \<longrightarrow> cachedFor t (cacheKeyOf project img) h (outputDirOf project img) = None))
        \<and> (\<forall>c. imageCache s (cacheKeyOf project img) = Some c \<and> hash c = h
                \<and> pathExists s1 (outputDirOf project img)
              \<longrightarrow> cachedFor (fst (processProjectImage env project img (s, a)))
                    (cacheKeyOf project img) h (outputDirOf project img) = Some c)"
  proof (intro allI impI, elim conjE)
    fix h msg s1
    assume h: "getFileHash env (inputPathOf project img) = Inr h"
      and c: "cachedFor s (cacheKeyOf project img) h (outputDirOf project img) = None"
      and p: "processImage env (inputPathOf project img) (outputDirOf project img) s = (Inl msg, s1)"
    note st = processProjectImage_failed [OF h c p, of a]
    note fr = processImage_frame [OF p]
    have 1: "imageCache (fst (processProjectImage env project img (s, a))) = imageCache s"
      using st(1) fr by (simp add: projectError_def)
    have 2: "imageCacheUpdated (fst (processProjectImage env project img (s, a))) = imageCacheUpdated s"
      using st(1) fr by (simp add: projectError_def)
    have 4: "(\<forall>c. imageCache s (cacheKeyOf project img) = Some c \<longrightarrow> hash c \<noteq> h)
             \<longrightarrow> (\<forall>t. imageCache t (cacheKeyOf project img)
                        = imageCache (fst (processProjectImage env project img (s, a)))
                            (cacheKeyOf project img)
                      \<longrightarrow> cachedFor t (cacheKeyOf project img) h (outputDirOf project img) = None)"
      using 1 by (simp add: cachedFor_def split: option.splits)
    have 5: "\<forall>c. imageCache s (cacheKeyOf project img) = Some c \<and> hash c = h
                \<and> pathExists s1 (outputDirOf project img)
              \<longrightarrow> cachedFor (fst (processProjectImage env project img (s, a)))
                    (cacheKeyOf project img) h (outputDirOf project img) = Some c"
      using st(1) fr by (simp add: cachedFor_def projectError_def pathExists_def)
    from 1 2 st(2) 4 5
    show "imageCache (fst (processProjectImage env project img (s, a))) = imageCache s
        \<and> imageCacheUpdated (fst (processProjectImage env project img (s, a))) = imageCacheUpdated s
        \<and> imageData (snd (processProjectImage env project img (s, a))) = imageData a
        \<and> ((\<forall>c. imageCache s (cacheKeyOf project img) = Some c \<longrightarrow> hash c \<noteq> h)
             \<longrightarrow> (\<forall>t. imageCache t (cacheKeyOf project img)
                        = imageCache (fst (processProjectImage env project img (s, a)))
                            (cacheKeyOf project img)
                      \<longrightarrow> cachedFor t (cacheKeyOf project img) h (outputDirOf project img) = None))
        \<and> (\<forall>c. imageCache s (cacheKeyOf project img) = Some c \<and> hash c = h
                \<and> pathExists s1 (outputDirOf project img)
              \<longrightarrow> cachedFor (fst (processProjectImage env project img (s, a)))
                    (cacheKeyOf project img) h (outputDirOf project img) = Some c)"
      by (intro conjI)
  qed
next
  show "\<forall>h msg s1. getFileHash env (homepageInput f) = Inr h
        \<and> cachedFor s (homepageKey f) h (homepageOutputDir f) = None
        \<and> deriveHomepageImage env (parseInt f) (homepageInput f) (homepageOutputDir f) s = (Inl msg, s1)
      \<longrightarrow> imageCache (fst (processHomepageImage env f (s, b))) = imageCache s
        \<and> imageCacheUpdated (fst (processHomepageImage env f (s, b))) = imageCacheUpdated s
        \<and> homepageImages (snd (processHomepageImage env f (s, b))) = homepageImages b
        \<and> ((\<forall>c. imageCache s (homepageKey f) = Some c \<longrightarrow> hash c \<noteq> h)
             \<longrightarrow> (\<forall>t. imageCache t (homepageKey f)
                        = imageCache (fst (processHomepageImage env f (s, b))) (homepageKey f)
                      \<longrightarrow> cachedFor t (homepageKey f) h (homepageOutputDir f) = None))
        \<and> (\<forall>c. imageCache s (homepageKey f) = Some c \<and> hash c = h
                \<and> pathExists s1 (homepageOutputDir f)
              \<longrightarrow> cachedFor (fst (processHomepageImage env f (s, b)))
                    (homepageKey f) h (homepageOutputDir f) = Some c)"
  proof (intro allI impI, elim conjE)
    fix h msg s1
    assume h: "getFileHash env (homepageInput f) = Inr h"
      and c: "cachedFor s (homepageKey f) h (homepageOutputDir f) = None"
      and p: "deriveHomepageImage env (parseInt f) (homepageInput f) (homepageOutputDir f) s = (Inl msg, s1)"
    note st = processHomepageImage_failed [OF h c p, of b]
    note fr = deriveHomepageImage_frame [OF p]
    have 1: "imageCache (fst (processHomepageImage env f (s, b))) = imageCache s"
      using st fr by (simp add: homepageError_def)
    have 2: "imageCacheUpdated (fst (processHomepageImage env f (s, b))) = imageCacheUpdated s"
      using st deriveHomepageImage_onlyWrites [OF p] by (simp add: homepageError_def onlyWrites_def)
    have 3: "homepageImages (snd (processHomepageImage env f (s, b))) = homepageImages b"
      using st by simp
    have 4: "(\<forall>c. imageCache s (homepageKey f) = Some c \<longrightarrow> hash c \<noteq> h)
             \<longrightarrow> (\<forall>t. imageCache t (homepageKey f)
                        = imageCache (fst (processHomepageImage env f (s, b))) (homepageKey f)
                      \<longrightarrow> cachedFor t (homepageKey f) h (homepageOutputDir f) = None)"
      using 1 by (simp add: cachedFor_def split: option.splits)
    have 5: "\<forall>c. imageCache s (homepageKey f) = Some c \<and> hash c = h
                \<and> pathExists s1 (homepageOutputDir f)
              \<longrightarrow> cachedFor (fst (processHomepageImage env f (s, b)))
                    (homepageKey f) h (homepageOutputDir f) = Some c"
      using st fr by (simp add: cachedFor_def homepageError_def pathExists_def)
    from 1 2 3 4 5
    show "imageCache (fst (processHomepageImage env f (s, b))) = imageCache s
        \<and> imageCacheUpdated (fst (processHomepageImage env f (s, b))) = imageCacheUpdated s
        \<and> homepageImages (snd (processHomepageImage env f (s, b))) = homepageImages b
        \<and> ((\<forall>c. imageCache s (homepageKey f) = Some c \<longrightarrow> hash c \<noteq> h)
             \<longrightarrow> (\<forall>t. imageCache t (homepageKey f)
                        = imageCache (fst (processHomepageImage env f (s, b))) (homepageKey f)
                      \<longrightarrow> cachedFor t (homepageKey f) h (homepageOutputDir f) = None))
        \<and> (\<forall>c. imageCache s (homepageKey f) = Some c \<and> hash c = h
                \<and> pathExists s1 (homepageOutputDir f)
              \<longrightarrow> cachedFor (fst (processHomepageImage env f (s, b)))
                    (homepageKey f) h (homepageOutputDir f) = Some c)"
      by (intro conjI)
  qed
next
  show "\<forall>before after pre post sk ak h msg s1.
          projects = before @ project # after \<longrightarrow> hasImages project
        \<longrightarrow> images project = pre @ img # post
        \<longrightarrow> cacheKeyOf project img \<notin> set (allKeys before) \<union> set (allKeys after)
        \<longrightarrow> cacheKeyOf project img \<notin> cacheKeyOf project ` (set pre \<union> set post)
        \<longrightarrow> reached env before project pre s = (sk, ak)
        \<longrightarrow> getFileHash env (inputPathOf project img) = Inr h
        \<longrightarrow> cachedFor sk (cacheKeyOf project img) h (outputDirOf project img) = None
        \<longrightarrow> processImage env (inputPathOf project img) (outputDirOf project img) sk = (Inl msg, s1)
        \<longrightarrow> imageCache (snd (processImages env projects s)) (cacheKeyOf project img)
              = imageCache s (cacheKeyOf project img)
          \<and> (\<forall>env2 t tk bk.
                (\<forall>c. imageCache s (cacheKeyOf project img) = Some c \<longrightarrow> hash c \<noteq> h)
              \<and> imageCache t (cacheKeyOf project img)
                  = imageCache (snd (processImages env projects s)) (cacheKeyOf project img)
              \<and> getFileHash env2 (inputPathOf project img) = Inr h
              \<and> reached env2 before project pre t = (tk, bk)
              \<longrightarrow> cachedFor tk (cacheKeyOf project img) h (outputDirOf project img) = None
                \<and> (\<forall>msg2 s2. processImage env2 (inputPathOf project img) (outputDirOf project img) tk
                                = (Inl msg2, s2)
                      \<longrightarrow> fst (processProjectImage env2 project img (tk, bk))
                            = projectError img msg2 s2)
                \<and> (\<forall>r s2. processImage env2 (inputPathOf project img) (outputDirOf project img) tk
                                = (Inr r, s2)
                      \<longrightarrow> imageCache (fst (processProjectImage env2 project img (tk, bk)))
                              (cacheKeyOf project img) = Some \<lparr>hash = h, data = Results r\<rparr>
                        \<and> totalProcessed (snd (processProjectImage env2 project img (tk, bk)))
                            = totalProcessed bk + 1))"
  proof (intro allI impI)
    fix before after pre post sk ak h msg s1
    let ?k = "cacheKeyOf project img"
    assume pj: "projects = before @ project # after" and hi: "hasImages project"
      and im: "images project = pre @ img # post"
      and k1: "?k \<notin> set (allKeys before) \<union> set (allKeys after)"
      and k2: "?k \<notin> cacheKeyOf project ` (set pre \<union> set post)"
      and r: "reached env before project pre s = (sk, ak)"
      and h: "getFileHash env (inputPathOf project img) = Inr h"
      and c: "cachedFor sk ?k h (outputDirOf project img) = None"
      and p: "processImage env (inputPathOf project img) (outputDirOf project img) sk = (Inl msg, s1)"
    obtain s2 a2 where t2: "processProjectImage env project img (sk, ak) = (s2, a2)"
      by (cases "processProjectImage env project img (sk, ak)")
    obtain s3 a3 where t3: "fold (processProjectImage env project) post (s2, a2) = (s3, a3)"
      by (cases "fold (processProjectImage env project) post (s2, a2)")
    obtain s4 a4 where t4: "fold (processProject env) after (s3, a3) = (s4, a4)"
      by (cases "fold (processProject env) after (s3, a3)")
    have run: "processImages env projects s = (a4, s4)"
      by (simp add: processImages_reached [OF pj hi im] r t2 t3 t4)
    from k1 k2 have "imageCache sk ?k = imageCache s ?k"
      by (intro reached_facts(3) [OF r]) auto
    moreover from processProjectImage_failed(1) [OF h c p, of ak] t2 processImage_frame(1) [OF p]
    have "imageCache s2 = imageCache sk" by (simp add: projectError_def)
    moreover from fold_processProjectImage_frame [OF t3] k2
    have "imageCache s3 ?k = imageCache s2 ?k" by auto
    moreover from fold_processProject_frame [OF t4] k1
    have "imageCache s4 ?k = imageCache s3 ?k" by auto
    ultimately have e: "imageCache (snd (processImages env projects s)) ?k = imageCache s ?k"
      by (simp add: run)
    have n: "\<forall>env2 t tk bk.
                (\<forall>c. imageCache s ?k = Some c \<longrightarrow> hash c \<noteq> h)
              \<and> imageCache t ?k = imageCache (snd (processImages env projects s)) ?k
              \<and> getFileHash env2 (inputPathOf project img) = Inr h
              \<and> reached env2 before project pre t = (tk, bk)
              \<longrightarrow> cachedFor tk ?k h (outputDirOf project img) = None
                \<and> (\<forall>msg2 s2. processImage env2 (inputPathOf project img) (outputDirOf project img) tk
                                = (Inl msg2, s2)
                      \<longrightarrow> fst (processProjectImage env2 project img (tk, bk))
                            = projectError img msg2 s2)
                \<and> (\<forall>r s2. processImage env2 (inputPathOf project img) (outputDirOf project img) tk
                                = (Inr r, s2)
                      \<longrightarrow> imageCache (fst (processProjectImage env2 project img (tk, bk))) ?k
                            = Some \<lparr>hash = h, data = Results r\<rparr>
                        \<and> totalProcessed (snd (processProjectImage env2 project img (tk, bk)))
                            = totalProcessed bk + 1)"
    proof (intro allI impI, elim conjE)
      fix env2 t tk bk
      assume o: "\<forall>c. imageCache s ?k = Some c \<longrightarrow> hash c \<noteq> h"
        and tc: "imageCache t ?k = imageCache (snd (processImages env projects s)) ?k"
        and h2: "getFileHash env2 (inputPathOf project img) = Inr h"
        and r2: "reached env2 before project pre t = (tk, bk)"
      from k1 k2 have "imageCache tk ?k = imageCache t ?k"
        by (intro reached_facts(3) [OF r2]) auto
      with tc e o have "\<forall>c. imageCache tk ?k = Some c \<longrightarrow> hash c \<noteq> h" by simp
      then have c2: "cachedFor tk ?k h (outputDirOf project img) = None"
        by (rule cachedFor_other_hash)
      from reached_facts(1) [OF r2] obtain m where m: "imageData bk (slug project) = Some m"
        by auto
      have f: "\<forall>msg2 s2. processImage env2 (inputPathOf project img) (outputDirOf project img) tk
                                = (Inl msg2, s2)
                      \<longrightarrow> fst (processProjectImage env2 project img (tk, bk))
                            = projectError img msg2 s2"
        using processProjectImage_failed(1) [OF h2 c2] by blast
      have d: "\<forall>r s2. processImage env2 (inputPathOf project img) (outputDirOf project img) tk
                                = (Inr r, s2)
                      \<longrightarrow> imageCache (fst (processProjectImage env2 project img (tk, bk))) ?k
                            = Some \<lparr>hash = h, data = Results r\<rparr>
                        \<and> totalProcessed (snd (processProjectImage env2 project img (tk, bk)))
                            = totalProcessed bk + 1"
      proof (intro allI impI)
        fix r s2
        assume "processImage env2 (inputPathOf project img) (outputDirOf project img) tk = (Inr r, s2)"
        from processProjectImage_derived(1,4) [OF h2 c2 this m]
        show "imageCache (fst (processProjectImage env2 project img (tk, bk))) ?k
                            = Some \<lparr>hash = h, data = Results r\<rparr>
                        \<and> totalProcessed (snd (processProjectImage env2 project img (tk, bk)))
                            = totalProcessed bk + 1"
          by simp
      qed
      from c2 f d
      show "cachedFor tk ?k h (outputDirOf project img) = None
                \<and> (\<forall>msg2 s2. processImage env2 (inputPathOf project img) (outputDirOf project img) tk
                                = (Inl msg2, s2)
                      \<longrightarrow> fst (processProjectImage env2 project img (tk, bk))
                            = projectError img msg2 s2)
                \<and> (\<forall>r s2. processImage env2 (inputPathOf project img) (outputDirOf project img) tk
                                = (Inr r, s2)
                      \<longrightarrow> imageCache (fst (processProjectImage env2 project img (tk, bk))) ?k
                            = Some \<lparr>hash = h, data = Results r\<rparr>
                        \<and> totalProcessed (snd (processProjectImage env2 project img (tk, bk)))
                            = totalProcessed bk + 1)"
        by (intro conjI)
    qed
    from e n
    show "imageCache (snd (processImages env projects s)) ?k = imageCache s ?k
          \<and> (\<forall>env2 t tk bk.
                (\<forall>c. imageCache s ?k = Some c \<longrightarrow> hash c \<noteq> h)
              \<and> imageCache t ?k = imageCache (snd (processImages env projects s)) ?k
              \<and> getFileHash env2 (inputPathOf project img) = Inr h
              \<and> reached env2 before project pre t = (tk, bk)
              \<longrightarrow> cachedFor tk ?k h (outputDirOf project img) = None
                \<and> (\<forall>msg2 s2. processImage env2 (inputPathOf project img) (outputDirOf project img) tk
                                = (Inl msg2, s2)
                      \<longrightarrow> fst (processProjectImage env2 project img (tk, bk))
                            = projectError img msg2 s2)
                \<and> (\<forall>r s2. processImage env2 (inputPathOf project img) (outputDirOf project img) tk
                                = (Inr r, s2)
                      \<longrightarrow> imageCache (fst (processProjectImage env2 project img (tk, bk))) ?k
                            = Some \<lparr>hash = h, data = Results r\<rparr>
                        \<and> totalProcessed (snd (processProjectImage env2 project img (tk, bk)))
                            = totalProcessed bk + 1))"
      by (rule conjI)
  qed
next
  show "\<forall>files pre post sk bk h msg s1.
          pathExists s homepageDir \<longrightarrow> readdir env homepageDir = Inr files
        \<longrightarrow> numberedImages files = pre @ f # post
        \<longrightarrow> f \<notin> set pre \<union> set post
        \<longrightarrow> reachedHome env pre s = (sk, bk)
        \<longrightarrow> getFileHash env (homepageInput f) = Inr h
        \<longrightarrow> cachedFor sk (homepageKey f) h (homepageOutputDir f) = None
        \<longrightarrow> deriveHomepageImage env (parseInt f) (homepageInput f) (homepageOutputDir f) sk
              = (Inl msg, s1)
        \<longrightarrow> imageCache (snd (processHomepageImages env s)) (homepageKey f)
              = imageCache s (homepageKey f)
          \<and> (\<forall>env2 t tk ck.
                (\<forall>c. imageCache s (homepageKey f) = Some c \<longrightarrow> hash c \<noteq> h)
              \<and> imageCache t (homepageKey f)
                  = imageCache (snd (processHomepageImages env s)) (homepageKey f)
              \<and> getFileHash env2 (homepageInput f) = Inr h
              \<and> reachedHome env2 pre t = (tk, ck)
              \<longrightarrow> cachedFor tk (homepageKey f) h (homepageOutputDir f) = None
                \<and> (\<forall>msg2 s2. deriveHomepageImage env2 (parseInt f) (homepageInput f)
                                  (homepageOutputDir f) tk = (Inl msg2, s2)
                      \<longrightarrow> processHomepageImage env2 f (tk, ck) = (homepageError f msg2 s2, ck))
                \<and> (\<forall>r s2. deriveHomepageImage env2 (parseInt f) (homepageInput f)
                                  (homepageOutputDir f) tk = (Inr r, s2)
                      \<longrightarrow> imageCache (fst (processHomepageImage env2 f (tk, ck))) (homepageKey f)
                              = Some \<lparr>hash = h, data = Homepage r\<rparr>
                        \<and> processedCount (snd (processHomepageImage env2 f (tk, ck)))
                            = processedCount ck + 1))"
  proof (intro allI impI)
    fix files pre post sk bk h msg s1
    let ?k = "homepageKey f"
    assume pe: "pathExists s homepageDir" and rd: "readdir env homepageDir = Inr files"
      and im: "numberedImages files = pre @ f # post"
      and k2: "f \<notin> set pre \<union> set post"
      and r: "reachedHome env pre s = (sk, bk)"
      and h: "getFileHash env (homepageInput f) = Inr h"
      and c: "cachedFor sk ?k h (homepageOutputDir f) = None"
      and p: "deriveHomepageImage env (parseInt f) (homepageInput f) (homepageOutputDir f) sk
                = (Inl msg, s1)"
    obtain s3 b3 where t3: "fold (processHomepageImage env) post (homepageError f msg s1, bk) = (s3, b3)"
      by (cases "fold (processHomepageImage env) post (homepageError f msg s1, bk)")
    from r have r': "fold (processHomepageImage env) pre (s, newHrun) = (sk, bk)"
      by (simp add: reachedHome_def)
    have fo: "fold (processHomepageImage env) (numberedImages files) (s, newHrun) = (s3, b3)"
      by (simp add: im r' processHomepageImage_failed [OF h c p] t3)
    from k2 have kp: "?k \<notin> homepageKey ` set pre" "?k \<notin> homepageKey ` set post"
      by (auto simp: homepageKey_inj)
    from reachedHome_facts(2) [OF r kp(1)] have "imageCache sk ?k = imageCache s ?k" .
    moreover from deriveHomepageImage_frame(1) [OF p]
    have "imageCache (homepageError f msg s1) = imageCache sk" by (simp add: homepageError_def)
    moreover from fold_processHomepageImage_frame [OF t3] kp(2)
    have "imageCache s3 ?k = imageCache (homepageError f msg s1) ?k" by auto
    ultimately have e: "imageCache (snd (processHomepageImages env s)) ?k = imageCache s ?k"
      by (simp add: processHomepageImages_cache(1) [OF pe rd] fo)
    have n: "\<forall>env2 t tk ck.
                (\<forall>c. imageCache s ?k = Some c \<longrightarrow> hash c \<noteq> h)
              \<and> imageCache t ?k = imageCache (snd (processHomepageImages env s)) ?k
              \<and> getFileHash env2 (homepageInput f) = Inr h
              \<and> reachedHome env2 pre t = (tk, ck)
              \<longrightarrow> cachedFor tk ?k h (homepageOutputDir f) = None
                \<and> (\<forall>msg2 s2. deriveHomepageImage env2 (parseInt f) (homepageInput f)
                                  (homepageOutputDir f) tk = (Inl msg2, s2)
                      \<longrightarrow> processHomepageImage env2 f (tk, ck) = (homepageError f msg2 s2, ck))
                \<and> (\<forall>r s2. deriveHomepageImage env2 (parseInt f) (homepageInput f)
                                  (homepageOutputDir f) tk = (Inr r, s2)
                      \<longrightarrow> imageCache (fst (processHomepageImage env2 f (tk, ck))) ?k
                              = Some \<lparr>hash = h, data = Homepage r\<rparr>
                        \<and> processedCount (snd (processHomepageImage env2 f (tk, ck)))
                            = processedCount ck + 1)"
    proof (intro allI impI, elim conjE)
      fix env2 t tk ck
      assume o: "\<forall>c. imageCache s ?k = Some c \<longrightarrow> hash c \<noteq> h"
        and tc: "imageCache t ?k = imageCache (snd (processHomepageImages env s)) ?k"
        and h2: "getFileHash env2 (homepageInput f) = Inr h"
        and r2: "reachedHome env2 pre t = (tk, ck)"
      from reachedHome_facts(2) [OF r2 kp(1)] have "imageCache tk ?k = imageCache t ?k" .
      with tc e o have "\<forall>c. imageCache tk ?k = Some c \<longrightarrow> hash c \<noteq> h" by simp
      then have c2: "cachedFor tk ?k h (homepageOutputDir f) = None"
        by (rule cachedFor_other_hash)
      have f: "\<forall>msg2 s2. deriveHomepageImage env2 (parseInt f) (homepageInput f)
                                  (homepageOutputDir f) tk = (Inl msg2, s2)
                      \<longrightarrow> processHomepageImage env2 f (tk, ck) = (homepageError f msg2 s2, ck)"
        using processHomepageImage_failed [OF h2 c2] by blast
      have d: "\<forall>r s2. deriveHomepageImage env2 (parseInt f) (homepageInput f)
                                  (homepageOutputDir f) tk = (Inr r, s2)
                      \<longrightarrow> imageCache (fst (processHomepageImage env2 f (tk, ck))) ?k
                              = Some \<lparr>hash = h, data = Homepage r\<rparr>
                        \<and> processedCount (snd (processHomepageImage env2 f (tk, ck)))
                            = processedCount ck + 1"
      proof (intro allI impI)
        fix r s2
        assume "deriveHomepageImage env2 (parseInt f) (homepageInput f) (homepageOutputDir f) tk
                  = (Inr r, s2)"
        from processHomepageImage_derived [OF h2 c2 this, of ck]
        show "imageCache (fst (processHomepageImage env2 f (tk, ck))) ?k
                              = Some \<lparr>hash = h, data = Homepage r\<rparr>
                        \<and> processedCount (snd (processHomepageImage env2 f (tk, ck)))
                            = processedCount ck + 1"
          by simp
      qed
      from c2 f d
      show "cachedFor tk ?k h (homepageOutputDir f) = None
                \<and> (\<forall>msg2 s2. deriveHomepageImage env2 (parseInt f) (homepageInput f)
                                  (homepageOutputDir f) tk = (Inl msg2, s2)
                      \<longrightarrow> processHomepageImage env2 f (tk, ck) = (homepageError f msg2 s2, ck))
                \<and> (\<forall>r s2. deriveHomepageImage env2 (parseInt f) (homepageInput f)
                                  (homepageOutputDir f) tk = (Inr r, s2)
                      \<longrightarrow> imageCache (fst (processHomepageImage env2 f (tk, ck))) ?k
                              = Some \<lparr>hash = h, data = Homepage r\<rparr>
                        \<and> processedCount (snd (processHomepageImage env2 f (tk, ck)))
                            = processedCount ck + 1)"
        by (intro conjI)
    qed
    from e n
    show "imageCache (snd (processHomepageImages env s)) ?k = imageCache s ?k
          \<and> (\<forall>env2 t tk ck.
                (\<forall>c. imageCache s ?k = Some c \<longrightarrow> hash c \<noteq> h)
              \<and> imageCache t ?k = imageCache (snd (processHomepageImages env s)) ?k
              \<and> getFileHash env2 (homepageInput f) = Inr h
              \<and> reachedHome env2 pre t = (tk, ck)
              \<longrightarrow> cachedFor tk ?k h (homepageOutputDir f) = None
                \<and> (\<forall>msg2 s2. deriveHomepageImage env2 (parseInt f) (homepageInput f)
                                  (homepageOutputDir f) tk = (Inl msg2, s2)
                      \<longrightarrow> processHomepageImage env2 f (tk, ck) = (homepageError f msg2 s2, ck))
                \<and> (\<forall>r s2. deriveHomepageImage env2 (parseInt f) (homepageInput f)
                                  (homepageOutputDir f) tk = (Inr r, s2)
                      \<longrightarrow> imageCache (fst (processHomepageImage env2 f (tk, ck))) ?k
                              = Some \<lparr>hash = h, data = Homepage r\<rparr>
                        \<and> processedCount (snd (processHomepageImage env2 f (tk, ck)))
                            = processedCount ck + 1))"
      by (rule conjI)
  qed
qed

theorem failed_derivation_keeps_cache_witness:
  "getFileHash corruptEnv (inputPathOf oneProject (item ''a.jpg'' 1)) = Inr ''projects/p/original/a.jpg''
   \<and> cachedFor emptyState (cacheKeyOf oneProject (item ''a.jpg'' 1)) ''projects/p/original/a.jpg''
        (outputDirOf oneProject (item ''a.jpg'' 1)) = None
   \<and> processImage corruptEnv (inputPathOf oneProject (item ''a.jpg'' 1))
        (outputDirOf oneProject (item ''a.jpg'' 1)) emptyState
        = (Inl ''unsupported image format'', emptyState)
   \<and> imageCache (fst (processProjectImage corruptEnv oneProject (item ''a.jpg'' 1) (emptyState, newRun)))
        = Map.empty
   \<and> cachedFor (fst (processProjectImage corruptEnv oneProject (item ''a.jpg'' 1) (emptyState, newRun)))
        (cacheKeyOf oneProject (item ''a.jpg'' 1)) ''projects/p/original/a.jpg''
        (outputDirOf oneProject (item ''a.jpg'' 1)) = None
   \<and> fst (processImage flakyEnv (inputPathOf oneProject (item ''a.jpg'' 1))
        (outputDirOf oneProject (item ''a.jpg'' 1)) staleState) = Inl ''ENOSPC''
   \<and> cachedFor (fst (processProjectImage flakyEnv oneProject (item ''a.jpg'' 1) (staleState, inProject)))
        (cacheKeyOf oneProject (item ''a.jpg'' 1)) ''projects/p/original/a.jpg''
        (outputDirOf oneProject (item ''a.jpg'' 1))
       = Some \<lparr>hash = ''projects/p/original/a.jpg'', data = staleData\<rparr>
   \<and> getFileHash corruptEnv (homepageInput ''1.jpg'') = Inr ''homepage/1.jpg''
   \<and> cachedFor emptyState (homepageKey ''1.jpg'') ''homepage/1.jpg'' (homepageOutputDir ''1.jpg'') = None
   \<and> deriveHomepageImage corruptEnv (parseInt ''1.jpg'') (homepageInput ''1.jpg'')
        (homepageOutputDir ''1.jpg'') emptyState = (Inl ''unsupported image format'', emptyState)
   \<and> imageCache (fst (processHomepageImage corruptEnv ''1.jpg'' (emptyState, newHrun))) = Map.empty
   \<and> cachedFor (fst (processHomepageImage corruptEnv ''1.jpg'' (emptyState, newHrun)))
        (homepageKey ''1.jpg'') ''homepage/1.jpg'' (homepageOutputDir ''1.jpg'') = None
   \<and> fst (processImage halfEnv (inputPathOf twoProject (item ''b.jpg'' 2))
        (outputDirOf twoProject (item ''b.jpg'' 2))
        (fst (reached halfEnv [] twoProject [item ''a.jpg'' 1] emptyState)))
       = Inl ''unsupported image format''
   \<and> imageCache (snd (processImages halfEnv [twoProject] emptyState))
        (cacheKeyOf twoProject (item ''b.jpg'' 2)) = None
   \<and> cachedFor (fst (reached goodEnv [] twoProject [item ''a.jpg'' 1]
                       (snd (processImages halfEnv [twoProject] emptyState))))
        (cacheKeyOf twoProject (item ''b.jpg'' 2)) ''projects/p/original/b.jpg''
        (outputDirOf twoProject (item ''b.jpg'' 2)) = None
   \<and> fst (deriveHomepageImage slideEnv (parseInt ''2.jpg'') (homepageInput ''2.jpg'')
        (homepageOutputDir ''2.jpg'') (fst (reachedHome slideEnv [''1.jpg''] homeState)))
       = Inl ''unsupported image format''
   \<and> imageCache (snd (processHomepageImages slideEnv homeState)) (homepageKey ''2.jpg'') = None
   \<and> cachedFor (fst (reachedHome goodEnv [''1.jpg''] (snd (processHomepageImages slideEnv homeState))))
        (homepageKey ''2.jpg'') ''homepage/2.jpg'' (homepageOutputDir ''2.jpg'') = None"
proof -
  let ?a = "item ''a.jpg'' 1" and ?b = "item ''b.jpg'' 2"
  have h1: "getFileHash corruptEnv (inputPathOf oneProject ?a) = Inr ''projects/p/original/a.jpg''"
    by (simp add: eval_defs)
  have c1: "cachedFor emptyState (cacheKeyOf oneProject ?a) ''projects/p/original/a.jpg''
              (outputDirOf oneProject ?a) = None"
    by (simp add: cachedFor_def emptyState_def)
  have p1: "processImage corruptEnv (inputPathOf oneProject ?a) (outputDirOf oneProject ?a) emptyState
              = (Inl ''unsupported image format'', emptyState)"
    by (simp add: processImage_def corruptEnv_def goodEnv_def)
  have h2: "getFileHash corruptEnv (homepageInput ''1.jpg'') = Inr ''homepage/1.jpg''"
    by (simp add: eval_defs)
  have c2: "cachedFor emptyState (homepageKey ''1.jpg'') ''homepage/1.jpg''
              (homepageOutputDir ''1.jpg'') = None"
    by (simp add: cachedFor_def emptyState_def)
  have p2: "deriveHomepageImage corruptEnv (parseInt ''1.jpg'') (homepageInput ''1.jpg'')
              (homepageOutputDir ''1.jpg'') emptyState = (Inl ''unsupported image format'', emptyState)"
    by (simp add: deriveHomepageImage_def corruptEnv_def goodEnv_def)
  note t = failed_derivation_keeps_cache
  note t1 = t [where env = corruptEnv and project = oneProject and img = "?a"
                 and s = emptyState and a = newRun and f = "''1.jpg''" and b = newHrun,
               THEN conjunct1, rule_format, OF conjI [OF h1 conjI [OF c1 p1]]]
  from t1 have r1: "imageCache (fst (processProjectImage corruptEnv oneProject ?a
              (emptyState, newRun))) = Map.empty"
    by (simp add: emptyState_def)
  from t1 [THEN conjunct2, THEN conjunct2, THEN conjunct2, THEN conjunct1, rule_format,
           of "fst (processProjectImage corruptEnv oneProject ?a (emptyState, newRun))"]
  have n1: "cachedFor (fst (processProjectImage corruptEnv oneProject ?a
              (emptyState, newRun))) (cacheKeyOf oneProject ?a)
              ''projects/p/original/a.jpg'' (outputDirOf oneProject ?a) = None"
    by (simp add: emptyState_def)
  note t2 = t [where env = corruptEnv and project = oneProject and img = "?a"
                 and s = emptyState and a = newRun and f = "''1.jpg''" and b = newHrun,
               THEN conjunct2, THEN conjunct1, rule_format, OF conjI [OF h2 conjI [OF c2 p2]]]
  from t2 have r2: "imageCache (fst (processHomepageImage corruptEnv ''1.jpg'' (emptyState, newHrun)))
              = Map.empty"
    by (simp add: emptyState_def)
  from t2 [THEN conjunct2, THEN conjunct2, THEN conjunct2, THEN conjunct1, rule_format,
           of "fst (processHomepageImage corruptEnv ''1.jpg'' (emptyState, newHrun))"]
  have n2: "cachedFor (fst (processHomepageImage corruptEnv ''1.jpg'' (emptyState, newHrun)))
              (homepageKey ''1.jpg'') ''homepage/1.jpg'' (homepageOutputDir ''1.jpg'') = None"
    by (simp add: emptyState_def)
  let ?P = "processImage flakyEnv (inputPathOf oneProject ?a) (outputDirOf oneProject ?a) staleState"
  have h3: "getFileHash flakyEnv (inputPathOf oneProject ?a) = Inr ''projects/p/original/a.jpg''"
    by (simp add: eval_defs)
  have c3: "cachedFor staleState (cacheKeyOf oneProject ?a) ''projects/p/original/a.jpg''
              (outputDirOf oneProject ?a) = None"
    by (simp add: eval_defs)
  have f3: "fst ?P = Inl ''ENOSPC''" by (simp add: eval_defs)
  note p3 = outcome_split [OF f3]
  have e3: "imageCache staleState (cacheKeyOf oneProject ?a)
              = Some \<lparr>hash = ''projects/p/original/a.jpg'', data = staleData\<rparr>"
    by (simp add: eval_defs)
  have d3: "pathExists (snd ?P) (outputDirOf oneProject ?a)" by (simp add: eval_defs)
  from t [where env = flakyEnv and project = oneProject and img = "?a"
            and s = staleState and a = inProject,
          THEN conjunct1, rule_format, OF conjI [OF h3 conjI [OF c3 p3]],
          THEN conjunct2, THEN conjunct2, THEN conjunct2, THEN conjunct2, rule_format,
          OF conjI [OF e3 conjI [OF _ d3]]]
  have r3: "cachedFor (fst (processProjectImage flakyEnv oneProject ?a (staleState, inProject)))
        (cacheKeyOf oneProject ?a) ''projects/p/original/a.jpg'' (outputDirOf oneProject ?a)
       = Some \<lparr>hash = ''projects/p/original/a.jpg'', data = staleData\<rparr>"
    by simp
  let ?R = "reached halfEnv [] twoProject [?a] emptyState"
  let ?Q = "processImage halfEnv (inputPathOf twoProject ?b) (outputDirOf twoProject ?b) (fst ?R)"
  have h4: "getFileHash halfEnv (inputPathOf twoProject ?b) = Inr ''projects/p/original/b.jpg''"
    by (simp add: eval_defs)
  have g4: "getFileHash goodEnv (inputPathOf twoProject ?b) = Inr ''projects/p/original/b.jpg''"
    by (simp add: eval_defs)
  have f4: "fst ?Q = Inl ''unsupported image format''"
    by (simp add: processImage_def halfEnv_def goodEnv_def inputPathOf_def twoProject_def item_def
                  projectsDir_def)
  have ca4: "imageCache (fst ?R) (cacheKeyOf twoProject ?b) = None"
    using reached_facts(3) [where env = halfEnv and before = "[]" and project = twoProject
        and pre = "[?a]" and s = emptyState and k = "cacheKeyOf twoProject ?b", OF prod.collapse [symmetric]]
    by (simp add: allKeys_def cacheKeyOf_def twoProject_def item_def emptyState_def)
  have c4: "cachedFor (fst ?R) (cacheKeyOf twoProject ?b) ''projects/p/original/b.jpg''
              (outputDirOf twoProject ?b) = None"
    using ca4 by (simp add: cachedFor_def)
  have k4: "cacheKeyOf twoProject ?b \<notin> set (allKeys []) \<union> set (allKeys [])"
    by (simp add: allKeys_def)
  have k4': "cacheKeyOf twoProject ?b \<notin> cacheKeyOf twoProject ` (set [?a] \<union> set [])"
    by (simp add: cacheKeyOf_def item_def)
  have i4: "images twoProject = [?a] @ ?b # []" by (simp add: twoProject_def)
  have hi4: "hasImages twoProject" by (simp add: twoProject_def)
  have pj4: "[twoProject] = [] @ twoProject # []" by simp
  note t3 = t [where env = halfEnv and project = twoProject and img = "?b" and s = emptyState
                 and projects = "[twoProject]",
               THEN conjunct2, THEN conjunct2, THEN conjunct1, rule_format,
               where before = "[]" and after = "[]" and pre = "[?a]" and post = "[]",
               OF pj4 hi4 i4 k4 k4' prod.collapse [symmetric] h4 c4 outcome_split [OF f4]]
  from t3 [THEN conjunct1] have r4: "imageCache (snd (processImages halfEnv [twoProject] emptyState))
        (cacheKeyOf twoProject ?b) = None"
    by (simp add: emptyState_def)
  from t3 [THEN conjunct2, rule_format, where ?env2.0 = goodEnv
             and t = "snd (processImages halfEnv [twoProject] emptyState)",
           OF conjI [OF _ conjI [OF refl conjI [OF g4 prod.collapse [symmetric]]]], THEN conjunct1]
  have n4: "cachedFor (fst (reached goodEnv [] twoProject [?a]
                       (snd (processImages halfEnv [twoProject] emptyState))))
        (cacheKeyOf twoProject ?b) ''projects/p/original/b.jpg'' (outputDirOf twoProject ?b) = None"
    by (simp add: emptyState_def)
  let ?H = "reachedHome slideEnv [''1.jpg''] homeState"
  have h5: "getFileHash slideEnv (homepageInput ''2.jpg'') = Inr ''homepage/2.jpg''"
    by (simp add: eval_defs)
  have g5: "getFileHash goodEnv (homepageInput ''2.jpg'') = Inr ''homepage/2.jpg''"
    by (simp add: eval_defs)
  have f5: "fst (deriveHomepageImage slideEnv (parseInt ''2.jpg'') (homepageInput ''2.jpg'')
        (homepageOutputDir ''2.jpg'') (fst ?H)) = Inl ''unsupported image format''"
    by (simp add: deriveHomepageImage_def slideEnv_def homeEnv_def goodEnv_def homepageInput_def
                  homepageDir_def)
  have ca5: "imageCache (fst ?H) (homepageKey ''2.jpg'') = None"
    using reachedHome_facts(2) [where env = slideEnv and pre = "[''1.jpg'']" and s = homeState
        and k = "homepageKey ''2.jpg''", OF prod.collapse [symmetric]]
    by (simp add: homepageKey_def homeState_def emptyState_def)
  have c5: "cachedFor (fst ?H) (homepageKey ''2.jpg'') ''homepage/2.jpg''
              (homepageOutputDir ''2.jpg'') = None"
    using ca5 by (simp add: cachedFor_def)
  have pe5: "pathExists homeState homepageDir"
    by (simp add: pathExists_def homeState_def emptyState_def homepageDir_def)
  have rd5: "readdir slideEnv homepageDir = Inr [''2.jpg'', ''1.jpg'', ''notes.txt'']"
    by (simp add: slideEnv_def homeEnv_def goodEnv_def homepageDir_def)
  have nu5: "numberedImages [''2.jpg'', ''1.jpg'', ''notes.txt''] = [''1.jpg''] @ ''2.jpg'' # []"
    by (simp add: numberedImages_def isNumberedImage_def isDigit_def parseInt_def toLowerCase_def
                  lowerChar_def)
  have k5: "''2.jpg'' \<notin> set [''1.jpg''] \<union> set []" by simp
  note t4 = t [where env = slideEnv and f = "''2.jpg''" and s = homeState,
               THEN conjunct2, THEN conjunct2, THEN conjunct2, rule_format,
               where pre = "[''1.jpg'']" and post = "[]",
               OF pe5 rd5 nu5 k5 prod.collapse [symmetric] h5 c5 outcome_split [OF f5]]
  from t4 [THEN conjunct1]
  have r5: "imageCache (snd (processHomepageImages slideEnv homeState)) (homepageKey ''2.jpg'') = None"
    by (simp add: homeState_def emptyState_def)
  from t4 [THEN conjunct2, rule_format, where ?env2.0 = goodEnv
             and t = "snd (processHomepageImages slideEnv homeState)",
           OF conjI [OF _ conjI [OF refl conjI [OF g5 prod.collapse [symmetric]]]], THEN conjunct1]
  have n5: "cachedFor (fst (reachedHome goodEnv [''1.jpg'']
                (snd (processHomepageImages slideEnv homeState))))
        (homepageKey ''2.jpg'') ''homepage/2.jpg'' (homepageOutputDir ''2.jpg'') = None"
    by (simp add: homeState_def emptyState_def)
  from h1 c1 p1 r1 n1 f3 r3 h2 c2 p2 r2 n2 f4 r4 n4 f5 r5 n5 show ?thesis by (intro conjI)
qed

text \<open>
  C10 as stated for every key fails when the cache already held an entry with the current
  hash. Here the entry of \<open>p/a.jpg\<close> has the current hash and its output directory is
  gone, so the image is derived; the encoder throws after the directory was created. The
  cache is left as it was, and the next run, with an encoder that works, finds entry and
  directory: it counts the image as skipped and writes no file.
\<close>

theorem failed_image_not_retried:
  "cachedFor staleState ''p/a.jpg'' ''projects/p/original/a.jpg'' ''dist/images/p/01'' = None
   \<and> fst (processImage flakyEnv ''projects/p/original/a.jpg'' ''dist/images/p/01'' staleState)
       = Inl ''ENOSPC''
   \<and> imageCache (snd (processImages flakyEnv [oneProject] staleState)) = imageCache staleState
   \<and> totalProcessed (fst (processImages goodEnv [oneProject]
        (snd (processImages flakyEnv [oneProject] staleState)))) = 0
   \<and> totalSkipped (fst (processImages goodEnv [oneProject]
        (snd (processImages flakyEnv [oneProject] staleState)))) = 1
   \<and> writes (snd (processImages goodEnv [oneProject]
        (snd (processImages flakyEnv [oneProject] staleState)))) = []"
  by (simp add: processImages_def processProject_def oneProject_def) (simp add: eval_defs)

subsection \<open>A missing output directory forces a new derivation\<close>




subsection \<open>Which collections use the cache\<close>





lemma ensureDir_withCache:
  "ensureDir env p (withCache c u s) = apsnd (withCache c u) (ensureDir env p s)"
  by (simp add: ensureDir_def mkdirp_def withCache_def split: option.splits)
















subsection \<open>Failures of single images\<close>




lemma fold_checkDuplicate_counts:
  "totalProcessed (fold (checkDuplicate project) imgs a) = totalProcessed a
   \<and> totalSkipped (fold (checkDuplicate project) imgs a) = totalSkipped a"
  by (induction imgs arbitrary: a) (auto simp: checkDuplicate_def split: option.splits)






lemma processImages_single:
  "hasImages p \<Longrightarrow> processImages env [p] s =
     (case fold (processProjectImage env p) (images p)
             (s, fold (checkDuplicate p) (images p) (newRun\<lparr>imageData := [slug p \<mapsto> Map.empty]\<rparr>)) of
        (s1, a) \<Rightarrow> (a, s1))"
  by (simp add: processImages_def processProject_def newRun_def)



subsection \<open>The exit code of the build\<close>






















subsection \<open>The fallback \<open>src\<close>\<close>

lemma srcsetLoop_ok:
  "srcsetLoop env i out url n wq jq mw ws acc s = (Inr l, s') \<Longrightarrow>
     writes s' = writes s @ concat (map (sizeFiles out) (filter (\<lambda>w. w \<le> mw) ws))"
proof (induction ws arbitrary: acc s)
  case Nil
  then show ?case by simp
next
  case (Cons w ws)
  show ?case
  proof (cases "w \<le> mw")
    case False
    with Cons.prems have "srcsetLoop env i out url n wq jq mw ws acc s = (Inr l, s')"
      by simp
    from Cons.IH [OF this] False show ?thesis by simp
  next
    case True
    let ?s3 = "wrote (pathJoin [out, showNat w @ ''.jpg''])
                 (wrote (pathJoin [out, showNat w @ ''.webp''])
                    (wrote (pathJoin [out, showNat w @ ''.avif'']) s))"
    from Cons.prems True obtain acc' where
      rest: "srcsetLoop env i out url n wq jq mw ws acc' ?s3 = (Inr l, s')"
      by (auto simp: andThen_def toFile_def split: option.splits)
    have w3: "writes ?s3 = writes s @ sizeFiles out w"
      by (simp add: wrote_def sizeFiles_def)
    from Cons.IH [OF rest] True w3 show ?thesis by simp
  qed
qed

lemma mathMax_empty: "mathMax (filter P ws) = NegInfinity \<longleftrightarrow> filter P ws = []"
  by (cases "filter P ws") (auto split: maxnum.splits)

lemma mathMax_mem: "xs \<noteq> [] \<Longrightarrow> \<exists>m \<in> set xs. mathMax xs = Num m"
proof (induction xs)
  case Nil
  then show ?case by simp
next
  case (Cons x xs)
  show ?case
  proof (cases "xs = []")
    case True
    then show ?thesis by simp
  next
    case False
    from Cons.IH [OF this] obtain m where "m \<in> set xs" "mathMax xs = Num m" by blast
    then show ?thesis by (auto simp: max_def)
  qed
qed

text \<open>
  C9. For a homepage image narrower than 400 pixels and for a landing image narrower
  than 800 pixels, the derivation writes no file at all and the \<open>src\<close> of the entry is
  \<open>-Infinity.jpg\<close> in the directory of the image. For a source that reaches the
  smallest width of its ladder, the file that \<open>src\<close> names below \<open>dist\<close> is among the
  files the derivation wrote.
\<close>

theorem fallback_src:
  "(\<forall>mw mh h s1. sharpMetadata env (homepageInput f) = Inr (mw, mh)
        \<and> deriveHomepageImage env (parseInt f) (homepageInput f) (homepageOutputDir f) s = (Inr h, s1)
      \<longrightarrow> (mw < 400 \<longrightarrow>
             hp_src h = ''/images/homepage/'' @ showNat (parseInt f) @ ''/-Infinity.jpg''
             \<and> writes s1 = writes s)
        \<and> (400 \<le> mw \<longrightarrow>
             (\<exists>ws. writes s1 = writes s @ ws \<and> distDir @ hp_src h \<in> set ws)))
   \<and> (\<forall>mw mh l s1. sharpMetadata env inputPath = Inr (mw, mh)
        \<and> deriveLandingImage env type i inputPath s = (Inr l, s1)
      \<longrightarrow> (mw < 800 \<longrightarrow>
             ld_src l = ''/images/landing/'' @ type @ ''/'' @ type @ ''-'' @ showNat (i + 1)
                          @ ''/-Infinity.jpg''
             \<and> writes s1 = writes s)
        \<and> (800 \<le> mw \<longrightarrow>
             (\<exists>ws. writes s1 = writes s @ ws \<and> distDir @ ld_src l \<in> set ws)))"
proof (intro conjI allI impI; elim conjE)
  fix mw mh h s1
  assume m: "sharpMetadata env (homepageInput f) = Inr (mw, mh)"
    and d: "deriveHomepageImage env (parseInt f) (homepageInput f) (homepageOutputDir f) s = (Inr h, s1)"
  let ?ok = "filter (\<lambda>w. w \<le> mw) imageSizes"
  from m d obtain l where
    loop: "srcsetLoop env (homepageInput f) (homepageOutputDir f)
             (''/images/homepage/'' @ showNat (parseInt f)) False imageQuality imageQuality mw
             imageSizes \<lparr>avifSrcset = [], webpSrcset = [], jpgSrcset = []\<rparr>
             (mkdirp (homepageOutputDir f) s) = (Inr l, s1)"
    and src: "hp_src h = ''/images/homepage/'' @ showNat (parseInt f) @ ''/''
                @ showMax (mathMax ?ok) @ ''.jpg''"
    by (auto simp: deriveHomepageImage_def andThen_def ensureDir_def
             split: sum.splits prod.splits option.splits)
  from srcsetLoop_ok [OF loop]
  have w: "writes s1 = writes s @ concat (map (sizeFiles (homepageOutputDir f)) ?ok)"
    by (simp add: ensureDir_def mkdirp_def)
  {
    assume "mw < 400"
    then have e: "?ok = []" by (simp add: imageSizes_def)
    from src e show "hp_src h = ''/images/homepage/'' @ showNat (parseInt f) @ ''/-Infinity.jpg''"
      by simp
    from w e show "writes s1 = writes s" by simp
  }
  {
    assume "400 \<le> mw"
    then have "?ok \<noteq> []" by (simp add: imageSizes_def)
    from mathMax_mem [OF this] obtain x where x: "x \<in> set ?ok" "mathMax ?ok = Num x" by blast
    from src x have "distDir @ hp_src h \<in> set (sizeFiles (homepageOutputDir f) x)"
      by (simp add: sizeFiles_def homepageOutputDir_def distDir_def)
    with x have "distDir @ hp_src h \<in> set (concat (map (sizeFiles (homepageOutputDir f)) ?ok))"
      by auto
    with w show "\<exists>ws. writes s1 = writes s @ ws \<and> distDir @ hp_src h \<in> set ws" by blast
  }
next
  fix mw mh l s1
  assume m: "sharpMetadata env inputPath = Inr (mw, mh)"
    and d: "deriveLandingImage env type i inputPath s = (Inr l, s1)"
  let ?ok = "filter (\<lambda>w. w \<le> mw) landingSizes"
  from m d obtain sl where
    loop: "srcsetLoop env inputPath (landingOutputDir type i) (landingUrl type i) True 80 82 mw
             landingSizes \<lparr>avifSrcset = [], webpSrcset = [], jpgSrcset = []\<rparr> s = (Inr sl, s1)"
    and src: "ld_src l = landingUrl type i @ ''/'' @ showMax (mathMax ?ok) @ ''.jpg''"
    by (auto simp: deriveLandingImage_def andThen_def split: sum.splits prod.splits)
  from srcsetLoop_ok [OF loop]
  have w: "writes s1 = writes s @ concat (map (sizeFiles (landingOutputDir type i)) ?ok)" .
  {
    assume "mw < 800"
    then have e: "?ok = []" by (simp add: landingSizes_def)
    from src e show "ld_src l = ''/images/landing/'' @ type @ ''/'' @ type @ ''-'' @ showNat (i + 1)
                          @ ''/-Infinity.jpg''"
      by (simp add: landingUrl_def)
    from w e show "writes s1 = writes s" by simp
  }
  {
    assume "800 \<le> mw"
    then have "?ok \<noteq> []" by (simp add: landingSizes_def)
    from mathMax_mem [OF this] obtain x where x: "x \<in> set ?ok" "mathMax ?ok = Num x" by blast
    from src x have "distDir @ ld_src l \<in> set (sizeFiles (landingOutputDir type i) x)"
      by (simp add: sizeFiles_def landingOutputDir_def landingUrl_def outputBase_def distDir_def)
    with x have "distDir @ ld_src l \<in> set (concat (map (sizeFiles (landingOutputDir type i)) ?ok))"
      by auto
    with w show "\<exists>ws. writes s1 = writes s @ ws \<and> distDir @ ld_src l \<in> set ws" by blast
  }
qed

theorem fallback_src_witness:
  "sharpMetadata smallEnv (homepageInput ''1.jpg'') = Inr (300, 200)
   \<and> hp_src (projr (fst (deriveHomepageImage smallEnv (parseInt ''1.jpg'') (homepageInput ''1.jpg'')
               (homepageOutputDir ''1.jpg'') emptyState))) = ''/images/homepage/1/-Infinity.jpg''
   \<and> writes (snd (deriveHomepageImage smallEnv (parseInt ''1.jpg'') (homepageInput ''1.jpg'')
               (homepageOutputDir ''1.jpg'') emptyState)) = []
   \<and> sharpMetadata goodEnv (homepageInput ''1.jpg'') = Inr (900, 600)
   \<and> distDir @ hp_src (projr (fst (deriveHomepageImage goodEnv (parseInt ''1.jpg'')
               (homepageInput ''1.jpg'') (homepageOutputDir ''1.jpg'') emptyState)))
       \<in> set (writes (snd (deriveHomepageImage goodEnv (parseInt ''1.jpg'') (homepageInput ''1.jpg'')
               (homepageOutputDir ''1.jpg'') emptyState)))
   \<and> sharpMetadata smallEnv ''homepage/Commercial Home Images/a.jpg'' = Inr (300, 200)
   \<and> ld_src (projr (fst (deriveLandingImage smallEnv ''commercial'' 0
               ''homepage/Commercial Home Images/a.jpg'' emptyState)))
       = ''/images/landing/commercial/commercial-1/-Infinity.jpg''
   \<and> writes (snd (deriveLandingImage smallEnv ''commercial'' 0
               ''homepage/Commercial Home Images/a.jpg'' emptyState)) = []
   \<and> sharpMetadata goodEnv ''homepage/Commercial Home Images/a.jpg'' = Inr (900, 600)
   \<and> distDir @ ld_src (projr (fst (deriveLandingImage goodEnv ''commercial'' 0
               ''homepage/Commercial Home Images/a.jpg'' emptyState)))
       \<in> set (writes (snd (deriveLandingImage goodEnv ''commercial'' 0
               ''homepage/Commercial Home Images/a.jpg'' emptyState)))"
proof -
  let ?D = "\<lambda>env. deriveHomepageImage env (parseInt ''1.jpg'') (homepageInput ''1.jpg'')
               (homepageOutputDir ''1.jpg'') emptyState"
  let ?L = "\<lambda>env. deriveLandingImage env ''commercial'' 0
               ''homepage/Commercial Home Images/a.jpg'' emptyState"
  have m1: "sharpMetadata smallEnv (homepageInput ''1.jpg'') = Inr (300, 200)"
    and m2: "sharpMetadata goodEnv (homepageInput ''1.jpg'') = Inr (900, 600)"
    and m3: "sharpMetadata smallEnv ''homepage/Commercial Home Images/a.jpg'' = Inr (300, 200)"
    and m4: "sharpMetadata goodEnv ''homepage/Commercial Home Images/a.jpg'' = Inr (900, 600)"
    by (simp_all add: smallEnv_def goodEnv_def)
  have ok: "\<not> isl (fst (?D smallEnv))" "\<not> isl (fst (?D goodEnv))"
    "\<not> isl (fst (?L smallEnv))" "\<not> isl (fst (?L goodEnv))"
    by (simp_all add: eval_defs)
  have d1: "?D smallEnv = (Inr (projr (fst (?D smallEnv))), snd (?D smallEnv))"
    and d2: "?D goodEnv = (Inr (projr (fst (?D goodEnv))), snd (?D goodEnv))"
    and d3: "?L smallEnv = (Inr (projr (fst (?L smallEnv))), snd (?L smallEnv))"
    and d4: "?L goodEnv = (Inr (projr (fst (?L goodEnv))), snd (?L goodEnv))"
    using ok by (simp_all add: prod_eq_iff)
  have w0: "writes emptyState = []" and p1: "showNat (parseInt ''1.jpg'') = ''1''"
    and p2: "showNat (Suc 0) = ''1''"
    by (simp_all add: eval_defs)
  note h1 = fallback_src [where env = smallEnv and f = "''1.jpg''" and s = emptyState,
              THEN conjunct1, rule_format, OF conjI [OF m1 d1], THEN conjunct1, rule_format]
  note h2 = fallback_src [where env = goodEnv and f = "''1.jpg''" and s = emptyState,
              THEN conjunct1, rule_format, OF conjI [OF m2 d2], THEN conjunct2, rule_format]
  note l1 = fallback_src [where env = smallEnv and type = "''commercial''" and i = 0
                and inputPath = "''homepage/Commercial Home Images/a.jpg''" and s = emptyState,
              THEN conjunct2, rule_format, OF conjI [OF m3 d3], THEN conjunct1, rule_format]
  note l2 = fallback_src [where env = goodEnv and type = "''commercial''" and i = 0
                and inputPath = "''homepage/Commercial Home Images/a.jpg''" and s = emptyState,
              THEN conjunct2, rule_format, OF conjI [OF m4 d4], THEN conjunct2, rule_format]
  have a1: "hp_src (projr (fst (?D smallEnv))) = ''/images/homepage/1/-Infinity.jpg''"
    and a2: "writes (snd (?D smallEnv)) = []"
    using h1 by (simp_all add: w0 p1)
  have a3: "distDir @ hp_src (projr (fst (?D goodEnv))) \<in> set (writes (snd (?D goodEnv)))"
    using h2 by (auto simp: w0)
  have b1: "ld_src (projr (fst (?L smallEnv)))
              = ''/images/landing/commercial/commercial-1/-Infinity.jpg''"
    and b2: "writes (snd (?L smallEnv)) = []"
    using l1 by (simp_all add: w0 p2)
  have b3: "distDir @ ld_src (projr (fst (?L goodEnv))) \<in> set (writes (snd (?L goodEnv)))"
    using l2 by (auto simp: w0)
  from m1 a1 a2 m2 a3 m3 b1 b2 m4 b3 show ?thesis by (intro conjI)
qed

subsection \<open>Running the orchestrators again\<close>















subsection \<open>Persisting the store\<close>

lemma processProjectImage_flag:
  assumes st: "processProjectImage env p img (s, a) = (s', a')"
  shows "totalProcessed a \<le> totalProcessed a'
       \<and> (imageCacheUpdated s' \<longleftrightarrow> imageCacheUpdated s \<or> totalProcessed a < totalProcessed a')
       \<and> (totalProcessed a' = totalProcessed a \<longrightarrow> imageCache s' = imageCache s)"
proof -
  note f = processImage_frame [of env "inputPathOf p img" "outputDirOf p img" s]
  from st show ?thesis
    by (auto simp: processProjectImage_def Let_def setImage_def projectError_def
             split: sum.splits option.splits prod.splits dest: f(1) f(4))
qed

lemma fold_processProjectImage_flag:
  "fold (processProjectImage env p) imgs (s, a) = (s', a') \<Longrightarrow>
     totalProcessed a \<le> totalProcessed a'
     \<and> (imageCacheUpdated s' \<longleftrightarrow> imageCacheUpdated s \<or> totalProcessed a < totalProcessed a')
     \<and> (totalProcessed a' = totalProcessed a \<longrightarrow> imageCache s' = imageCache s)"
proof (induction imgs arbitrary: s a)
  case Nil
  then show ?case by simp
next
  case (Cons x xs)
  obtain s1 a1 where st: "processProjectImage env p x (s, a) = (s1, a1)"
    by (cases "processProjectImage env p x (s, a)")
  with Cons.prems have r: "fold (processProjectImage env p) xs (s1, a1) = (s', a')" by simp
  from processProjectImage_flag [OF st] Cons.IH [OF r] show ?case by auto
qed

lemma processProject_flag:
  assumes "processProject env p (s, a) = (s', a')"
  shows "totalProcessed a \<le> totalProcessed a'
     \<and> (imageCacheUpdated s' \<longleftrightarrow> imageCacheUpdated s \<or> totalProcessed a < totalProcessed a')
     \<and> (totalProcessed a' = totalProcessed a \<longrightarrow> imageCache s' = imageCache s)"
proof (cases "hasImages p")
  case False
  with assms show ?thesis by (simp add: processProject_def)
next
  case True
  let ?a0 = "fold (checkDuplicate p) (images p)
               (a\<lparr>imageData := (imageData a)(slug p \<mapsto> Map.empty),
                  projectProcessed := 0, projectSkipped := 0\<rparr>)"
  from assms True have f: "fold (processProjectImage env p) (images p) (s, ?a0) = (s', a')"
    by (simp add: processProject_unfold)
  from fold_processProjectImage_flag [OF f] show ?thesis
    by (simp add: fold_checkDuplicate_counts)
qed

lemma fold_processProject_flag:
  "fold (processProject env) ps (s, a) = (s', a') \<Longrightarrow>
     totalProcessed a \<le> totalProcessed a'
     \<and> (imageCacheUpdated s' \<longleftrightarrow> imageCacheUpdated s \<or> totalProcessed a < totalProcessed a')
     \<and> (totalProcessed a' = totalProcessed a \<longrightarrow> imageCache s' = imageCache s)"
proof (induction ps arbitrary: s a)
  case Nil
  then show ?case by simp
next
  case (Cons x xs)
  obtain s1 a1 where st: "processProject env x (s, a) = (s1, a1)"
    by (cases "processProject env x (s, a)")
  with Cons.prems have r: "fold (processProject env) xs (s1, a1) = (s', a')" by simp
  from processProject_flag [OF st] Cons.IH [OF r] show ?case by auto
qed

lemma processHomepageImage_flag:
  assumes st: "processHomepageImage env f (s, a) = (s', a')"
  shows "processedCount a \<le> processedCount a'
       \<and> (imageCacheUpdated s' \<longleftrightarrow> imageCacheUpdated s \<or> processedCount a < processedCount a')
       \<and> (processedCount a' = processedCount a \<longrightarrow> imageCache s' = imageCache s)"
proof -
  note f = deriveHomepageImage_onlyWrites
             [of env "parseInt f" "homepageInput f" "homepageOutputDir f" s, unfolded onlyWrites_def]
  from st show ?thesis
    by (auto simp: processHomepageImage_def homepageError_def
             split: sum.splits option.splits prod.splits dest: f)
qed

lemma fold_processHomepageImage_flag:
  "fold (processHomepageImage env) fs (s, a) = (s', a') \<Longrightarrow>
     processedCount a \<le> processedCount a'
     \<and> (imageCacheUpdated s' \<longleftrightarrow> imageCacheUpdated s \<or> processedCount a < processedCount a')
     \<and> (processedCount a' = processedCount a \<longrightarrow> imageCache s' = imageCache s)"
proof (induction fs arbitrary: s a)
  case Nil
  then show ?case by simp
next
  case (Cons x xs)
  obtain s1 a1 where st: "processHomepageImage env x (s, a) = (s1, a1)"
    by (cases "processHomepageImage env x (s, a)")
  with Cons.prems have r: "fold (processHomepageImage env) xs (s1, a1) = (s', a')" by simp
  from processHomepageImage_flag [OF st] Cons.IH [OF r] show ?case by auto
qed

lemma processHomepageImages_flag:
  assumes "processHomepageImages env s = (Inr a, s')"
  shows "(imageCacheUpdated s' \<longleftrightarrow> imageCacheUpdated s \<or> 0 < processedCount a)
       \<and> (processedCount a = 0 \<longrightarrow> imageCache s' = imageCache s)"
proof (cases "pathExists s homepageDir")
  case False
  with assms show ?thesis by (auto simp: processHomepageImages_def newHrun_def)
next
  case True
  show ?thesis
  proof (cases "readdir env homepageDir")
    case (Inl msg)
    with assms True show ?thesis by (simp add: processHomepageImages_def)
  next
    case (Inr files)
    obtain sa aa where
      f: "fold (processHomepageImage env) (numberedImages files) (s, newHrun) = (sa, aa)"
      by (cases "fold (processHomepageImage env) (numberedImages files) (s, newHrun)")
    from assms True Inr f have "aa = a"
      by (auto simp: processHomepageImages_def split: if_splits option.splits)
    moreover from processHomepageImages_cache(1,2) [OF True Inr] assms f
    have "imageCache s' = imageCache sa" "imageCacheUpdated s' = imageCacheUpdated sa"
      by simp_all
    ultimately show ?thesis using fold_processHomepageImage_flag [OF f]
      by (simp add: newHrun_def)
  qed
qed

text \<open>
  C7. \<open>saveImageCache\<close> does nothing unless \<open>imageCacheUpdated\<close> is set; when it is set
  and the write succeeds, the cache file holds the whole of \<open>imageCache\<close>; when the write
  throws, the only effect is one line on the console. A build whose earlier statements
  have all returned ends with exit code 0 after \<open>saveImageCache\<close>, whatever the write did.
  The orchestrators set the flag exactly when they have processed an image, and leave the
  cache as it was when they have processed none.
\<close>

theorem saveImageCache_persist:
  "(\<not> imageCacheUpdated s \<longrightarrow> saveImageCache env s = s)
   \<and> (imageCacheUpdated s \<and> outputJson env imageCachePath = None \<longrightarrow>
        cacheFile (saveImageCache env s) = Stored (imageCache s)
        \<and> writes (saveImageCache env s) = writes s @ [imageCachePath]
        \<and> console (saveImageCache env s) = console s)
   \<and> (\<forall>msg. imageCacheUpdated s \<and> outputJson env imageCachePath = Some msg \<longrightarrow>
        saveImageCache env s = s\<lparr>console := console s @ [''  Error saving image cache: '' @ msg]\<rparr>)
   \<and> (\<forall>s12. buildSteps env s0 = (Inr (), s12) \<longrightarrow> build env s0 = (0, saveImageCache env s12))
   \<and> (\<forall>a s'. processImages env projects s = (a, s') \<longrightarrow>
        (imageCacheUpdated s' \<longleftrightarrow> imageCacheUpdated s \<or> 0 < totalProcessed a)
        \<and> (totalProcessed a = 0 \<longrightarrow> imageCache s' = imageCache s))
   \<and> (\<forall>a s'. processHomepageImages env s = (Inr a, s') \<longrightarrow>
        (imageCacheUpdated s' \<longleftrightarrow> imageCacheUpdated s \<or> 0 < processedCount a)
        \<and> (processedCount a = 0 \<longrightarrow> imageCache s' = imageCache s))"
proof (intro conjI)
  show "\<not> imageCacheUpdated s \<longrightarrow> saveImageCache env s = s"
    by (simp add: saveImageCache_def)
  show "imageCacheUpdated s \<and> outputJson env imageCachePath = None \<longrightarrow>
        cacheFile (saveImageCache env s) = Stored (imageCache s)
        \<and> writes (saveImageCache env s) = writes s @ [imageCachePath]
        \<and> console (saveImageCache env s) = console s"
    by (simp add: saveImageCache_def wrote_def)
  show "\<forall>msg. imageCacheUpdated s \<and> outputJson env imageCachePath = Some msg \<longrightarrow>
        saveImageCache env s = s\<lparr>console := console s @ [''  Error saving image cache: '' @ msg]\<rparr>"
    by (simp add: saveImageCache_def)
  show "\<forall>s12. buildSteps env s0 = (Inr (), s12) \<longrightarrow> build env s0 = (0, saveImageCache env s12)"
    by (simp add: build_def)
  show "\<forall>a s'. processImages env projects s = (a, s') \<longrightarrow>
        (imageCacheUpdated s' \<longleftrightarrow> imageCacheUpdated s \<or> 0 < totalProcessed a)
        \<and> (totalProcessed a = 0 \<longrightarrow> imageCache s' = imageCache s)"
  proof (intro allI impI)
    fix a s' assume "processImages env projects s = (a, s')"
    then have "fold (processProject env) projects (s, newRun) = (s', a)"
      by (simp add: processImages_fold)
    from fold_processProject_flag [OF this]
    show "(imageCacheUpdated s' \<longleftrightarrow> imageCacheUpdated s \<or> 0 < totalProcessed a)
        \<and> (totalProcessed a = 0 \<longrightarrow> imageCache s' = imageCache s)"
      by (simp add: newRun_def)
  qed
  show "\<forall>a s'. processHomepageImages env s = (Inr a, s') \<longrightarrow>
        (imageCacheUpdated s' \<longleftrightarrow> imageCacheUpdated s \<or> 0 < processedCount a)
        \<and> (processedCount a = 0 \<longrightarrow> imageCache s' = imageCache s)"
    by (intro allI impI) (rule processHomepageImages_flag)
qed

theorem saveImageCache_persist_witness:
  "imageCacheUpdated (snd (buildSteps readOnlyEnv projectsState))
   \<and> outputJson readOnlyEnv imageCachePath = Some ''EACCES''
   \<and> fst (build readOnlyEnv projectsState) = 0
   \<and> console (snd (build readOnlyEnv projectsState)) = [''  Error saving image cache: EACCES'']
   \<and> cacheFile (snd (build readOnlyEnv projectsState)) = Absent
   \<and> \<not> imageCacheUpdated emptyState
   \<and> saveImageCache goodEnv emptyState = emptyState
   \<and> totalProcessed (fst (processImages goodEnv [oneProject] emptyState)) = 1
   \<and> imageCacheUpdated (snd (processImages goodEnv [oneProject] emptyState))
   \<and> (\<exists>a. fst (processHomepageImages homeEnv homeState) = Inr a \<and> processedCount a = 2)
   \<and> imageCacheUpdated (snd (processHomepageImages homeEnv homeState))"
proof -
  let ?B = "buildSteps readOnlyEnv projectsState"
  let ?R = "processImages goodEnv [oneProject] emptyState"
  let ?H = "processHomepageImages homeEnv homeState"
  define s12 where "s12 = snd ?B"
  have "\<not> isl (fst ?B)" by (simp add: eval_defs)
  then have b: "?B = (Inr (), s12)" by (cases "fst ?B") (auto simp: s12_def prod_eq_iff)
  have u: "imageCacheUpdated s12" and c: "console s12 = []" and f: "cacheFile s12 = Absent"
    unfolding s12_def by (simp_all add: eval_defs)
  have o: "outputJson readOnlyEnv imageCachePath = Some ''EACCES''" by (simp add: eval_defs)
  note t = saveImageCache_persist [where s = s12 and env = readOnlyEnv and ?s0.0 = projectsState]
  from t [THEN conjunct2, THEN conjunct2, THEN conjunct2, THEN conjunct1, rule_format, OF b]
  have bd: "build readOnlyEnv projectsState = (0, saveImageCache readOnlyEnv s12)" .
  from t [THEN conjunct2, THEN conjunct2, THEN conjunct1, rule_format, OF conjI [OF u o]]
  have sv: "saveImageCache readOnlyEnv s12
      = s12\<lparr>console := console s12 @ [''  Error saving image cache: '' @ ''EACCES'']\<rparr>" .
  have r1: "imageCacheUpdated (snd ?B)" using u by (simp add: s12_def)
  have r3: "fst (build readOnlyEnv projectsState) = 0" using bd by simp
  have r4: "console (snd (build readOnlyEnv projectsState)) = [''  Error saving image cache: EACCES'']"
    using bd sv c by simp
  have r5: "cacheFile (snd (build readOnlyEnv projectsState)) = Absent"
    using bd sv f by simp
  have n: "\<not> imageCacheUpdated emptyState" by (simp add: emptyState_def)
  note e = saveImageCache_persist [where s = emptyState and env = goodEnv
             and projects = "[oneProject]"]
  from e [THEN conjunct1, rule_format, OF n]
  have r6: "saveImageCache goodEnv emptyState = emptyState" .
  have p1: "totalProcessed (fst ?R) = 1"
    by (simp add: processImages_single oneProject_def) (simp add: eval_defs)
  have pr: "?R = (fst ?R, snd ?R)" by simp
  from e [THEN conjunct2, THEN conjunct2, THEN conjunct2, THEN conjunct2, THEN conjunct1,
          rule_format, OF pr, THEN conjunct1] p1
  have r7: "imageCacheUpdated (snd ?R)" by simp
  have "\<not> isl (fst ?H)" by (simp add: eval_defs)
  then obtain a where a: "fst ?H = Inr a" by (cases "fst ?H") auto
  then have h: "?H = (Inr a, snd ?H)" by (simp add: prod_eq_iff)
  have "processedCount (projr (fst ?H)) = 2" by (simp add: eval_defs)
  with a have p2: "processedCount a = 2" by simp
  from saveImageCache_persist [where s = homeState and env = homeEnv,
         THEN conjunct2, THEN conjunct2, THEN conjunct2, THEN conjunct2, THEN conjunct2,
         rule_format, OF h, THEN conjunct1] p2
  have r9: "imageCacheUpdated (snd ?H)" by simp
  from a p2 have r8: "\<exists>a. fst ?H = Inr a \<and> processedCount a = 2" by (intro exI conjI)
  from r1 o r3 r4 r5 n r6 p1 r7 r8 r9 show ?thesis by (intro conjI)
qed

end
